theory Spec2Isabelle
  imports Complex_Main "HOL-Library.Log_Nat" "HOL-Library.Sublist"
begin

text \<open>
  A model of the helpers of \<open>src/index.js\<close>: the \<open>APILogicError\<close> class, the response
  callback, the async route wrappers, the UUID timestamp decoder, \<open>pack\<close>, \<open>isEmpty\<close>,
  \<open>Pair\<close> and \<open>parseIntNull\<close>. JavaScript values are a datatype, a thrown value is the
  left summand of a result, the response and the callback invocations are explicit
  state, and Numbers are rationals rounded to binary64.
\<close>

section \<open>JavaScript values\<close>

subsection \<open>Numbers\<close>

text \<open>
  A JavaScript Number is an IEEE-754 binary64 value. The finite ones are modelled as the
  rationals they denote (\<open>-0\<close> and \<open>+0\<close> are both \<open>Fin 0\<close>: the modelled code never
  divides by a zero and never prints one). Every arithmetic result is rounded to the
  nearest binary64 value, ties to even, by \<open>fl\<close>: 53 significant bits in the normal range,
  multiples of \<open>2^-1074\<close> below \<open>2^-1022\<close>, and an infinity from \<open>2^1024\<close> on.
\<close>

datatype jsnum = NaN | PosInf | NegInf | Fin rat

definition pow2 :: "int \<Rightarrow> rat" where
  "pow2 e = (if 0 \<le> e then 2 ^ nat e else 1 / 2 ^ nat (- e))"

text \<open>\<open>ilog2 x\<close> is the binary exponent of a positive \<open>x\<close>: \<open>2^e \<le> x < 2^(e+1)\<close>.\<close>

definition ilog2 :: "rat \<Rightarrow> int" where
  "ilog2 x = (if 1 \<le> x then bitlen \<lfloor>x\<rfloor> - 1 else - bitlen (\<lceil>1 / x\<rceil> - 1))"

definition round_half_even :: "rat \<Rightarrow> int" where
  "round_half_even x =
     (let f = \<lfloor>x\<rfloor>; r = x - of_int f
      in if r < 1 / 2 then f else if 1 / 2 < r then f + 1 else if even f then f else f + 1)"

definition fl :: "rat \<Rightarrow> rat" where
  "fl x = (if x = 0 then 0
           else let e = max (ilog2 \<bar>x\<bar>) (- 1022); u = pow2 (e - 52)
                in of_int (round_half_even (x / u)) * u)"

definition to_number :: "rat \<Rightarrow> jsnum" where
  "to_number x =
     (let y = fl x
      in if 2 ^ 1024 \<le> y then PosInf else if y \<le> - (2 ^ 1024) then NegInf else Fin y)"

subsection \<open>Values\<close>

text \<open>
  The values the modelled functions receive (their TypeScript parameters are \<open>any\<close>):
  the primitives, arrays, plain objects, objects without a prototype
  (\<open>Object.create(null)\<close>) and instances of \<open>Error\<close> and its subclasses.
  An object is the list of its own enumerable string-keyed properties in enumeration
  order. An array may carry named properties beside its elements (strict-mode code can
  assign \<open>arr.message\<close>). An \<open>Error\<close> instance has its class, the own non-enumerable
  \<open>message\<close> the constructor creates (\<open>None\<close> when it was called without one) and its
  enumerable properties; \<open>stack\<close> is left out, no modelled function reads it.
  The datatype is a tree of data: it holds no function (so no object with a method of
  its own), no symbol or bigint, and no structure that contains itself.
\<close>

datatype errclass = ErrorClass | TypeErrorClass | SyntaxErrorClass | APILogicErrorClass

datatype jsval =
    Undefined
  | Null
  | Bool bool
  | Num jsnum
  | Str string
  | Arr "jsval list" "(string \<times> jsval) list"
  | Obj "(string \<times> jsval) list"
  | NullProtoObj "(string \<times> jsval) list"
  | ErrObj errclass "jsval option" "(string \<times> jsval) list"

text \<open>\<open>Primitives = string | number | boolean\<close>, the type of a context parameter.\<close>

datatype primitive = PStr string | PNum jsnum | PBool bool

fun prim_val :: "primitive \<Rightarrow> jsval" where
  "prim_val (PStr s) = Str s"
| "prim_val (PNum n) = Num n"
| "prim_val (PBool b) = Bool b"

text \<open>
  Reading a property \<open>v.k\<close> of a value that is neither \<open>undefined\<close> nor \<open>null\<close>, for the
  names the module reads (\<open>message\<close>, \<open>code\<close>, \<open>httpCode\<close>, \<open>title\<close>, \<open>logicErrCode\<close>,
  \<open>pars\<close>): none is an array index or supplied by a prototype, except
  \<open>Error.prototype.message\<close>, the empty string.
\<close>

fun lookup :: "(string \<times> jsval) list \<Rightarrow> string \<Rightarrow> jsval" where
  "lookup ps k = (case map_of ps k of None \<Rightarrow> Undefined | Some v \<Rightarrow> v)"

fun field :: "jsval \<Rightarrow> string \<Rightarrow> jsval" where
  "field (Arr xs ps) k = lookup ps k"
| "field (Obj ps) k = lookup ps k"
| "field (NullProtoObj ps) k = lookup ps k"
| "field (ErrObj c h ps) k =
     (if k = ''message''
      then (case h of Some m \<Rightarrow> m
            | None \<Rightarrow> (case map_of ps k of None \<Rightarrow> Str [] | Some v \<Rightarrow> v))
      else lookup ps k)"
| "field v k = Undefined"

subsection \<open>Strings\<close>

text \<open>
  A string is the list of its code units; \<open>char\<close> has the units \<open>0\<close> to \<open>255\<close>, which hold
  every character the modelled functions look for. \<open>is_white\<close> is the white space that
  \<open>parseInt\<close> and \<open>/^\\s+/\<close> skip, among these units. \<open>parseInt\<close> follows the language
  definition for a radix that is already an integer (the callers pass 16, or none, which
  is 0): sign, radix check, \<open>0x\<close> prefix, the longest prefix of digits, and NaN when that
  is empty. The digits are read exactly and rounded once.
\<close>

definition is_white :: "char \<Rightarrow> bool" where
  "is_white c = (of_char c \<in> {9, 10, 11, 12, 13, 32, 160 :: int})"

definition digit_of :: "char \<Rightarrow> int option" where
  "digit_of c =
     (let n = of_char c :: int
      in if 48 \<le> n \<and> n \<le> 57 then Some (n - 48)
         else if 97 \<le> n \<and> n \<le> 122 then Some (n - 87)
         else if 65 \<le> n \<and> n \<le> 90 then Some (n - 55)
         else None)"

definition is_digit_in :: "int \<Rightarrow> char \<Rightarrow> bool" where
  "is_digit_in R c = (case digit_of c of None \<Rightarrow> False | Some d \<Rightarrow> d < R)"

fun digits_value :: "int \<Rightarrow> int \<Rightarrow> string \<Rightarrow> int" where
  "digits_value R acc [] = acc"
| "digits_value R acc (c # cs) =
     digits_value R (acc * R + (case digit_of c of None \<Rightarrow> 0 | Some d \<Rightarrow> d)) cs"

definition parseInt :: "string \<Rightarrow> int \<Rightarrow> jsnum" where
  "parseInt inputString radix =
     (let S = dropWhile is_white inputString;
          sign = (if take 1 S = ''-'' then - 1 else 1 :: int);
          S1 = (if take 1 S = ''+'' \<or> take 1 S = ''-'' then drop 1 S else S)
      in if radix \<noteq> 0 \<and> (radix < 2 \<or> 36 < radix) then NaN
         else
           let stripPrefix = (radix = 0 \<or> radix = 16);
               has0x = (stripPrefix \<and> (take 2 S1 = ''0x'' \<or> take 2 S1 = ''0X''));
               S2 = (if has0x then drop 2 S1 else S1);
               R = (if has0x then 16 else if radix = 0 then 10 else radix);
               Z = takeWhile (is_digit_in R) S2
           in if Z = [] then NaN
              else to_number (of_int (sign * digits_value R 0 Z)))"

text \<open>
  \<open>s.split(sep)\<close> for a string separator: the parts between the occurrences of \<open>sep\<close>,
  found from the left; the code units one by one when \<open>sep\<close> is empty. \<open>join\<close> is
  \<open>Array.prototype.join\<close> on strings.
\<close>

fun split_from :: "string \<Rightarrow> string \<Rightarrow> string \<Rightarrow> string list" where
  "split_from sep acc [] = [rev acc]"
| "split_from sep acc (c # cs) =
     (if prefix sep (c # cs)
      then rev acc # split_from sep [] (drop (length sep - 1) cs)
      else split_from sep (c # acc) cs)"

definition js_split :: "string \<Rightarrow> string \<Rightarrow> string list" where
  "js_split s sep = (if sep = [] then map (\<lambda>c. [c]) s else split_from sep [] s)"

fun join :: "string \<Rightarrow> string list \<Rightarrow> string" where
  "join sep [] = []"
| "join sep [s] = s"
| "join sep (s # t) = s @ sep @ join sep t"

subsection \<open>Coercions and property access\<close>

fun truthy :: "jsval \<Rightarrow> bool" where
  "truthy Undefined = False"
| "truthy Null = False"
| "truthy (Bool b) = b"
| "truthy (Num n) = (n \<noteq> NaN \<and> n \<noteq> Fin 0)"
| "truthy (Str s) = (s \<noteq> [])"
| "truthy v = True"

text \<open>\<open>v == undefined\<close>, \<open>v == null\<close>: true of exactly \<open>undefined\<close> and \<open>null\<close>.\<close>

fun nullish :: "jsval \<Rightarrow> bool" where
  "nullish Undefined = True"
| "nullish Null = True"
| "nullish v = False"

fun isNumber :: "jsval \<Rightarrow> bool" where
  "isNumber (Num n) = True"
| "isNumber v = False"

fun isString :: "jsval \<Rightarrow> bool" where
  "isString (Str s) = True"
| "isString v = False"

fun lodash_isNaN :: "jsval \<Rightarrow> bool" where
  "lodash_isNaN (Num n) = (n = NaN)"
| "lodash_isNaN v = False"

text \<open>
  Values the engine throws. The message texts are the engine's own; the model keeps
  one fixed text per cause.
\<close>

definition TypeError :: "string \<Rightarrow> jsval" where
  "TypeError m = ErrObj TypeErrorClass (Some (Str m)) []"

definition SyntaxError :: "string \<Rightarrow> jsval" where
  "SyntaxError m = ErrObj SyntaxErrorClass (Some (Str m)) []"

text \<open>A computation that returns a value or throws one (\<open>Inl\<close>).\<close>

type_synonym 'a result = "jsval + 'a"

definition bind_res :: "'a result \<Rightarrow> ('a \<Rightarrow> 'b result) \<Rightarrow> 'b result" where
  "bind_res r f = (case r of Inl e \<Rightarrow> Inl e | Inr v \<Rightarrow> f v)"

fun get_prop :: "jsval \<Rightarrow> string \<Rightarrow> jsval result" where
  "get_prop Undefined k = Inl (TypeError ''Cannot read properties of undefined'')"
| "get_prop Null k = Inl (TypeError ''Cannot read properties of null'')"
| "get_prop v k = Inr (field v k)"

fun assign :: "(string \<times> 'a) list \<Rightarrow> string \<Rightarrow> 'a \<Rightarrow> (string \<times> 'a) list" where
  "assign [] k v = [(k, v)]"
| "assign ((k', v') # ps) k v = (if k' = k then (k, v) # ps else (k', v') # assign ps k v)"

text \<open>
  The assignment \<open>o.k = v\<close> in strict mode (the module starts with \<open>"use strict"\<close>), for a
  name \<open>k\<close> that is not an array index: it throws on \<open>undefined\<close> and \<open>null\<close>, and on a
  primitive, where sloppy mode would drop the write.
\<close>

fun set_prop :: "jsval \<Rightarrow> string \<Rightarrow> jsval \<Rightarrow> jsval result" where
  "set_prop Undefined k v = Inl (TypeError ''Cannot set properties of undefined'')"
| "set_prop Null k v = Inl (TypeError ''Cannot set properties of null'')"
| "set_prop (Bool b) k v = Inl (TypeError ''Cannot create property on boolean'')"
| "set_prop (Num n) k v = Inl (TypeError ''Cannot create property on number'')"
| "set_prop (Str s) k v = Inl (TypeError ''Cannot create property on string'')"
| "set_prop (Arr xs ps) k v = Inr (Arr xs (assign ps k v))"
| "set_prop (Obj ps) k v = Inr (Obj (assign ps k v))"
| "set_prop (NullProtoObj ps) k v = Inr (NullProtoObj (assign ps k v))"
| "set_prop (ErrObj c h ps) k v =
     (if k = ''message'' \<and> h \<noteq> None then Inr (ErrObj c (Some v) ps)
      else Inr (ErrObj c h (assign ps k v)))"

subsection \<open>JSON round trip\<close>

text \<open>
  \<open>JSON.parse(JSON.stringify(v))\<close> as a function on values. \<open>json_value v\<close> is the value
  that parsing the text of \<open>v\<close> gives, \<open>None\<close> where \<open>JSON.stringify\<close> yields \<open>undefined\<close>:
  a non-finite number becomes \<open>null\<close>; an array keeps its elements only, \<open>undefined\<close>
  ones as \<open>null\<close>; an object keeps its own enumerable properties, without those whose
  value is \<open>undefined\<close> (parsing gives a plain object also for an object without a
  prototype); an \<open>APILogicError\<close> is replaced by the result of its \<open>toJSON\<close> (unless
  an own property hides the method: no value of the model is callable).
  \<open>JSON.stringify\<close> itself throws on a bigint and on a structure that contains itself,
  and it calls any \<open>toJSON\<close> method it finds; the datatype holds none of these, so
  for its values the only failure of the round trip is the \<open>SyntaxError\<close> of
  \<open>JSON.parse(undefined)\<close>.
\<close>

definition json_elem :: "jsval option \<Rightarrow> jsval" where
  "json_elem r = (case r of None \<Rightarrow> Null | Some v \<Rightarrow> v)"

fun json_props :: "(string \<times> jsval option) list \<Rightarrow> (string \<times> jsval) list" where
  "json_props [] = []"
| "json_props ((k, None) # ps) = json_props ps"
| "json_props ((k, Some v) # ps) = (k, v) # json_props ps"

definition json_field :: "(string \<times> jsval option) list \<Rightarrow> string \<Rightarrow> jsval option" where
  "json_field js k = (case map_of js k of None \<Rightarrow> None | Some r \<Rightarrow> r)"

fun json_value :: "jsval \<Rightarrow> jsval option" where
  "json_value Undefined = None"
| "json_value Null = Some Null"
| "json_value (Bool b) = Some (Bool b)"
| "json_value (Num (Fin r)) = Some (Num (Fin r))"
| "json_value (Num n) = Some Null"
| "json_value (Str s) = Some (Str s)"
| "json_value (Arr xs ps) = Some (Arr (map (\<lambda>x. json_elem (json_value x)) xs) [])"
| "json_value (Obj ps) = Some (Obj (json_props (map (\<lambda>(k, v). (k, json_value v)) ps)))"
| "json_value (NullProtoObj ps) =
     Some (Obj (json_props (map (\<lambda>(k, v). (k, json_value v)) ps)))"
| "json_value (ErrObj c h ps) =
     (let js = map (\<lambda>(k, v). (k, json_value v)) ps
      in if c = APILogicErrorClass \<and> map_of ps ''toJSON'' = None
         then Some (Obj (json_props
                [(''httpCode'', json_field js ''httpCode''),
                 (''code'', json_field js ''logicErrCode''),
                 (''title'', json_field js ''title''),
                 (''message'',
                    (case map_option json_value h of
                       Some r \<Rightarrow> r
                     | None \<Rightarrow> (case map_of js ''message'' of
                                  None \<Rightarrow> Some (Str [])
                                | Some r \<Rightarrow> r))),
                 (''pars'', json_field js ''pars'')]))
         else Some (Obj (json_props js)))"

definition json_roundtrip :: "jsval \<Rightarrow> jsval result" where
  "json_roundtrip v =
     (case json_value v of
        None \<Rightarrow> Inl (SyntaxError ''undefined is not valid JSON'')
      | Some j \<Rightarrow> Inr j)"

subsection \<open>ToString\<close>

text \<open>
  The abstract operation \<open>ToString\<close>, by which \<open>parseInt\<close> reads its argument. The
  decimal text of a finite number (\<open>Number::toString\<close>) is a parameter, \<open>nts\<close>. An
  object is converted by the \<open>toString\<close> method it inherits: \<open>Object.prototype.toString\<close>,
  \<open>Array.prototype.toString\<close> (which calls \<open>join\<close>) or \<open>Error.prototype.toString\<close>.
  An own property named \<open>toString\<close> hides the method and, not being callable, leaves
  only \<open>valueOf\<close>, which returns no primitive: the conversion throws. An object without
  a prototype has neither method: the conversion throws.
\<close>

fun number_toString :: "(rat \<Rightarrow> string) \<Rightarrow> jsnum \<Rightarrow> string" where
  "number_toString nts NaN = ''NaN''"
| "number_toString nts PosInf = ''Infinity''"
| "number_toString nts NegInf = ''-Infinity''"
| "number_toString nts (Fin r) = nts r"

fun proto_name :: "errclass \<Rightarrow> string" where
  "proto_name ErrorClass = ''Error''"
| "proto_name TypeErrorClass = ''TypeError''"
| "proto_name SyntaxErrorClass = ''SyntaxError''"
| "proto_name APILogicErrorClass = ''Error''"

fun sequence :: "'a result list \<Rightarrow> 'a list result" where
  "sequence [] = Inr []"
| "sequence (r # rs) = bind_res r (\<lambda>x. bind_res (sequence rs) (\<lambda>xs. Inr (x # xs)))"

definition error_text :: "string \<Rightarrow> string \<Rightarrow> string" where
  "error_text name msg =
     (if name = [] then msg else if msg = [] then name else name @ '': '' @ msg)"

definition str_field :: "(string \<times> string result) list \<Rightarrow> string \<Rightarrow> string result" where
  "str_field strs k = (case map_of strs k of None \<Rightarrow> Inr [] | Some r \<Rightarrow> r)"

fun ToString :: "(rat \<Rightarrow> string) \<Rightarrow> jsval \<Rightarrow> string result" where
  "ToString nts Undefined = Inr ''undefined''"
| "ToString nts Null = Inr ''null''"
| "ToString nts (Bool b) = Inr (if b then ''true'' else ''false'')"
| "ToString nts (Num n) = Inr (number_toString nts n)"
| "ToString nts (Str s) = Inr s"
| "ToString nts (Arr xs ps) =
     (if map_of ps ''toString'' \<noteq> None
      then Inl (TypeError ''Cannot convert object to primitive value'')
      else if map_of ps ''join'' \<noteq> None then Inr ''[object Array]''
      else bind_res
             (sequence (map (\<lambda>x. if nullish x then Inr [] else ToString nts x) xs))
             (\<lambda>strs. Inr (join '','' strs)))"
| "ToString nts (Obj ps) =
     (if map_of ps ''toString'' \<noteq> None
      then Inl (TypeError ''Cannot convert object to primitive value'')
      else Inr ''[object Object]'')"
| "ToString nts (NullProtoObj ps) =
     Inl (TypeError ''Cannot convert object to primitive value'')"
| "ToString nts (ErrObj c h ps) =
     (let strs = map (\<lambda>(k, v). (k, ToString nts v)) ps
      in if map_of ps ''toString'' \<noteq> None
         then Inl (TypeError ''Cannot convert object to primitive value'')
         else bind_res
                (case map_of ps ''name'' of
                   None \<Rightarrow> Inr (proto_name c)
                 | Some n \<Rightarrow> if n = Undefined then Inr ''Error'' else str_field strs ''name'')
                (\<lambda>name.
                   bind_res
                     (case h of
                        Some m \<Rightarrow> if m = Undefined then Inr [] else ToString nts m
                      | None \<Rightarrow>
                          (case map_of ps ''message'' of
                             None \<Rightarrow> Inr []
                           | Some m \<Rightarrow>
                               if m = Undefined then Inr [] else str_field strs ''message''))
                     (\<lambda>msg. Inr (error_text name msg))))"

section \<open>APILogicError\<close>

text \<open>
  \<open>super(message)\<close> creates the own non-enumerable \<open>message\<close>, which the assignment
  \<open>this.message = message\<close> then overwrites in place; \<open>title\<close>, \<open>httpCode\<close>,
  \<open>logicErrCode\<close> and \<open>pars\<close> are created by assignment, enumerable, in this order.
\<close>

definition APILogicError ::
  "string \<Rightarrow> string \<Rightarrow> jsnum \<Rightarrow> jsnum \<Rightarrow> primitive list \<Rightarrow> jsval" where
  "APILogicError title message httpCode logicErrCode pars =
     ErrObj APILogicErrorClass (Some (Str message))
       [(''title'', Str title),
        (''httpCode'', Num httpCode),
        (''logicErrCode'', Num logicErrCode),
        (''pars'', Arr (map prim_val pars) [])]"

definition toJSON :: "jsval \<Rightarrow> jsval" where
  "toJSON this =
     Obj [(''httpCode'', field this ''httpCode''),
          (''code'', field this ''logicErrCode''),
          (''title'', field this ''title''),
          (''message'', field this ''message''),
          (''pars'', field this ''pars'')]"

definition logicError ::
  "string \<Rightarrow> string \<Rightarrow> jsnum \<Rightarrow> jsnum \<Rightarrow> primitive list \<Rightarrow> jsval" where
  "logicError title msg httpError errorCode pars =
     APILogicError title msg httpError errorCode pars"

section \<open>pack\<close>

text \<open>\<open>lodash.max\<close>: \<open>undefined\<close> for an empty array, else the largest element.\<close>

fun lodash_max :: "nat list \<Rightarrow> nat option" where
  "lodash_max [] = None"
| "lodash_max (x # xs) = Some (fold max xs x)"

text \<open>
  The loop \<open>for (let i = 0; i < n; ++i) ret.push(...)\<close>; with \<open>n\<close> undefined the
  comparison \<open>i < n\<close> is false.
\<close>

function pack_loop ::
  "jsval list list \<Rightarrow> nat option \<Rightarrow> nat \<Rightarrow> jsval list list \<Rightarrow> jsval list list" where
  "pack_loop arrs n i ret =
     (if (case n of None \<Rightarrow> False | Some k \<Rightarrow> i < k)
      then pack_loop arrs n (i + 1)
             (ret @ [map (\<lambda>arr. if length arr > i then arr ! i else Undefined) arrs])
      else ret)"
  by pat_completeness auto
termination
  by (relation "measure (\<lambda>(arrs, n, i, ret). case n of None \<Rightarrow> 0 | Some k \<Rightarrow> k - i)")
     (auto split: option.splits)

definition pack :: "jsval list list \<Rightarrow> jsval list list" where
  "pack arrs = pack_loop arrs (lodash_max (map length arrs)) 0 []"

section \<open>createServiceCallback\<close>

text \<open>
  The response object: the status code last assigned and the bodies passed to \<open>send\<close>.
  A callback takes \<open>(err, data)\<close> and the response; it gives the value it threw, if it
  threw, and the response as it left it. \<open>createServiceCallback(resp)\<close> is the callback
  below, run on \<open>resp\<close>; its first argument is the parameter \<open>nts\<close> of \<open>ToString\<close>.
\<close>

record response =
  statusCode :: jsval
  sent :: "jsval list"

type_synonym callback = "jsval \<Rightarrow> jsval \<Rightarrow> response \<Rightarrow> jsval option \<times> response"

text \<open>
  Lines 55 to 61: the round-tripped error object with \<open>message\<close> and \<open>code\<close> assigned
  where they compare equal to \<open>undefined\<close>. \<open>parseInt\<close> is called with no radix.
\<close>

definition backfill :: "(rat \<Rightarrow> string) \<Rightarrow> jsval \<Rightarrow> jsval result" where
  "backfill nts err =
     bind_res (json_roundtrip err) (\<lambda>errObj.
     bind_res (get_prop errObj ''message'') (\<lambda>m.
     bind_res (if nullish m then set_prop errObj ''message'' (field err ''message'')
               else Inr errObj) (\<lambda>errObj1.
     bind_res (get_prop errObj1 ''code'') (\<lambda>c.
       if nullish c
       then bind_res (ToString nts (field err ''code'')) (\<lambda>s.
              set_prop errObj1 ''code'' (Num (parseInt s 0)))
       else Inr errObj1))))"

definition createServiceCallback :: "(rat \<Rightarrow> string) \<Rightarrow> callback" where
  "createServiceCallback nts err data resp =
     (case (if truthy data then json_roundtrip data else Inr (Obj [])) of
        Inl e \<Rightarrow> (Some e, resp)
      | Inr resData \<Rightarrow>
          let resp1 = resp\<lparr>statusCode := Num (Fin 200)\<rparr>
          in if truthy err
             then (case backfill nts err of
                     Inl e \<Rightarrow> (Some e, resp1)
                   | Inr errObj \<Rightarrow>
                       let code = field err ''httpCode'';
                           resp2 = resp1\<lparr>statusCode :=
                                     (if isNumber code \<and> \<not> lodash_isNaN code then code
                                      else Num (Fin 500))\<rparr>
                       in (case set_prop resData ''err'' errObj of
                             Inl e \<Rightarrow> (Some e, resp2)
                           | Inr resData' \<Rightarrow>
                               (None, resp2\<lparr>sent := sent resp2 @ [resData']\<rparr>)))
             else (None, resp1\<lparr>sent := sent resp1 @ [resData]\<rparr>))"

section \<open>isEmpty\<close>

text \<open>
  \<open>obj instanceof Array\<close>, \<open>obj instanceof Object\<close> and \<open>Object.keys(obj).length\<close>:
  the keys of an array are its indices and its named properties. An object without a
  prototype is no instance of \<open>Object\<close>.
\<close>

fun instanceof_Array :: "jsval \<Rightarrow> bool" where
  "instanceof_Array (Arr xs ps) = True"
| "instanceof_Array v = False"

fun instanceof_Object :: "jsval \<Rightarrow> bool" where
  "instanceof_Object (Arr xs ps) = True"
| "instanceof_Object (Obj ps) = True"
| "instanceof_Object (ErrObj c h ps) = True"
| "instanceof_Object (NullProtoObj ps) = False"
| "instanceof_Object v = False"

fun num_keys :: "jsval \<Rightarrow> nat" where
  "num_keys (Arr xs ps) = length xs + length ps"
| "num_keys (Obj ps) = length ps"
| "num_keys (NullProtoObj ps) = length ps"
| "num_keys (ErrObj c h ps) = length ps"
| "num_keys v = 0"

fun arr_length :: "jsval \<Rightarrow> nat" where
  "arr_length (Arr xs ps) = length xs"
| "arr_length v = 0"

fun str_length :: "jsval \<Rightarrow> nat" where
  "str_length (Str s) = length s"
| "str_length v = 0"

text \<open>The method \<open>isEmpty\<close> of the class \<open>Utils\<close>, lines 74 to 79.\<close>

definition isEmpty :: "jsval \<Rightarrow> bool" where
  "isEmpty obj =
     ((nullish obj \<or> lodash_isNaN obj \<or> obj = Bool False) \<or>
      (isString obj \<and> str_length obj = 0) \<or>
      (instanceof_Array obj \<and> arr_length obj = 0) \<or>
      (instanceof_Object obj \<and> num_keys obj = 0))"

text \<open>
  \<open>lodash.isEmpty\<close>: true of \<open>undefined\<close> and \<open>null\<close>; a string or an array is empty
  when its length is 0; any other value is empty when \<open>for (key in value)\<close> meets no own
  property, which is so of every number and boolean.
\<close>

fun lodash_isEmpty :: "jsval \<Rightarrow> bool" where
  "lodash_isEmpty Undefined = True"
| "lodash_isEmpty Null = True"
| "lodash_isEmpty (Bool b) = True"
| "lodash_isEmpty (Num n) = True"
| "lodash_isEmpty (Str s) = (s = [])"
| "lodash_isEmpty (Arr xs ps) = (xs = [])"
| "lodash_isEmpty (Obj ps) = (ps = [])"
| "lodash_isEmpty (NullProtoObj ps) = (ps = [])"
| "lodash_isEmpty (ErrObj c h ps) = (ps = [])"

text \<open>
  The exported object, lines 352 to 354; the class itself is not exported.
  \<open>new Utils()\<close> has the methods of the class on its prototype and three own
  properties, none of them a predicate. \<open>lodash.merge(exports._, lodash)\<close> then assigns
  every enumerable property of \<open>lodash\<close> to the instance as an own property, a function
  by reference. Of the predicates modelled here the class contributes \<open>isEmpty\<close> and
  lodash contributes \<open>isEmpty\<close>, \<open>isNaN\<close>, \<open>isNumber\<close> and \<open>isString\<close>; \<open>isEmpty\<close> is
  the one method name of the class that lodash has too. A call \<open>_.name(v)\<close> takes the
  own property of the instance and looks at the prototype only when there is none;
  \<open>None\<close> stands for the call of a name that is neither.
\<close>

definition Utils_prototype :: "(string \<times> (jsval \<Rightarrow> bool)) list" where
  "Utils_prototype = [(''isEmpty'', isEmpty)]"

definition lodash_functions :: "(string \<times> (jsval \<Rightarrow> bool)) list" where
  "lodash_functions =
     [(''isEmpty'', lodash_isEmpty), (''isNaN'', lodash_isNaN), (''isNumber'', isNumber),
      (''isString'', isString)]"

definition lodash_merge ::
  "(string \<times> (jsval \<Rightarrow> bool)) list \<Rightarrow> (string \<times> (jsval \<Rightarrow> bool)) list \<Rightarrow>
     (string \<times> (jsval \<Rightarrow> bool)) list" where
  "lodash_merge object source = fold (\<lambda>(k, f) own. assign own k f) source object"

definition exported_own :: "(string \<times> (jsval \<Rightarrow> bool)) list" where
  "exported_own = lodash_merge [] lodash_functions"

definition exported_call :: "string \<Rightarrow> jsval \<Rightarrow> bool option" where
  "exported_call name v =
     (case map_of exported_own name of
        Some f \<Rightarrow> Some (f v)
      | None \<Rightarrow> map_option (\<lambda>f. f v) (map_of Utils_prototype name))"



section \<open>Async route adaptation\<close>

text \<open>
  The call \<open>reqHandler(req, resp, next)\<close> either throws before it returns (\<open>Inl\<close>; so
  does a handler that returns a value without a \<open>then\<close> method, by the \<open>TypeError\<close> of
  the call \<open>.then\<close>) or returns a promise, which is fulfilled with a value, rejected
  with one, or never settles. The world a request runs in: the response, the arguments
  of every callback invocation in order, what was written to the console, and the
  rejections no handler took. What the handler itself does to the response is not
  modelled: the world a wrapper is run on is the world as the handler leaves it. A
  callback provider maps the request to a callback, or throws; the response it also
  receives is the world's.
\<close>

datatype promise = Fulfilled jsval | Rejected jsval | Pending

record world =
  resp :: response
  calls :: "(jsval \<times> jsval) list"
  console :: "jsval list"
  unhandled :: "jsval list"

text \<open>One invocation \<open>callback(err, data)\<close>; an omitted \<open>data\<close> is \<open>undefined\<close>.\<close>

definition invoke :: "callback \<Rightarrow> jsval \<Rightarrow> jsval \<Rightarrow> world \<Rightarrow> jsval option \<times> world" where
  "invoke callback err data w =
     (let (thrown, r) = callback err data (resp w)
      in (thrown, w\<lparr>resp := r, calls := calls w @ [(err, data)]\<rparr>))"

fun instanceof_Error :: "jsval \<Rightarrow> bool" where
  "instanceof_Error (ErrObj c h ps) = True"
| "instanceof_Error v = False"

text \<open>Lines 156 to 162 and 175 to 181: the provider's callback, or the default one.\<close>

definition choose_callback ::
  "(rat \<Rightarrow> string) \<Rightarrow> ('req \<Rightarrow> callback result) option \<Rightarrow> 'req \<Rightarrow> callback result" where
  "choose_callback nts callbackProvider req =
     (case callbackProvider of
        Some provider \<Rightarrow> provider req
      | None \<Rightarrow> Inr (createServiceCallback nts))"

text \<open>
  The rejection handler of \<open>routeAsync\<close>, attached with \<open>.catch\<close> to the promise that
  \<open>.then\<close> returns: it takes a rejection of the handler's promise and also a value
  thrown by the fulfilment handler. What it throws itself nobody takes.
\<close>

definition routeAsync_catch :: "callback \<Rightarrow> jsval \<Rightarrow> world \<Rightarrow> world" where
  "routeAsync_catch callback err w =
     (let w1 = (if instanceof_Error err then w\<lparr>console := console w @ [err]\<rparr> else w)
      in case invoke callback err Undefined w1 of
           (None, w2) \<Rightarrow> w2
         | (Some e, w2) \<Rightarrow> w2\<lparr>unhandled := unhandled w2 @ [e]\<rparr>)"

text \<open>
  The wrapper \<open>routeAsync\<close> returns, run on a request: the value it throws, if it
  throws, and the world once the promise chain has run. Neither the call of the
  provider nor the call of the handler is inside a \<open>try\<close>: what they throw, the wrapper
  throws, and the chain is never built.
\<close>

definition routeAsync ::
  "(rat \<Rightarrow> string) \<Rightarrow> ('req \<Rightarrow> promise result) \<Rightarrow> ('req \<Rightarrow> callback result) option \<Rightarrow>
     'req \<Rightarrow> world \<Rightarrow> jsval option \<times> world" where
  "routeAsync nts reqHandler callbackProvider req w =
     (case choose_callback nts callbackProvider req of
        Inl e \<Rightarrow> (Some e, w)
      | Inr callback \<Rightarrow>
          (case reqHandler req of
             Inl e \<Rightarrow> (Some e, w)
           | Inr Pending \<Rightarrow> (None, w)
           | Inr (Fulfilled data) \<Rightarrow>
               (case invoke callback Null data w of
                  (None, w1) \<Rightarrow> (None, w1)
                | (Some e, w1) \<Rightarrow> (None, routeAsync_catch callback e w1))
           | Inr (Rejected err) \<Rightarrow> (None, routeAsync_catch callback err w)))"

text \<open>
  \<open>routeNextableAsync\<close> passes both handlers to one \<open>.then\<close>: the rejection handler
  takes a rejection of the handler's promise only.
\<close>

definition routeNextableAsync ::
  "(rat \<Rightarrow> string) \<Rightarrow> ('req \<Rightarrow> promise result) \<Rightarrow> ('req \<Rightarrow> callback result) option \<Rightarrow>
     'req \<Rightarrow> world \<Rightarrow> jsval option \<times> world" where
  "routeNextableAsync nts reqHandler callbackProvider req w =
     (case choose_callback nts callbackProvider req of
        Inl e \<Rightarrow> (Some e, w)
      | Inr callback \<Rightarrow>
          (case reqHandler req of
             Inl e \<Rightarrow> (Some e, w)
           | Inr Pending \<Rightarrow> (None, w)
           | Inr (Fulfilled data) \<Rightarrow>
               (if \<not> nullish data
                then (case invoke callback Null data w of
                        (None, w1) \<Rightarrow> (None, w1)
                      | (Some e, w1) \<Rightarrow> (None, w1\<lparr>unhandled := unhandled w1 @ [e]\<rparr>))
                else (None, w))
           | Inr (Rejected err) \<Rightarrow>
               (case invoke callback err Undefined w of
                  (None, w1) \<Rightarrow> (None, w1)
                | (Some e, w1) \<Rightarrow> (None, w1\<lparr>unhandled := unhandled w1 @ [e]\<rparr>))))"

section \<open>UUID timestamps\<close>

text \<open>
  Number arithmetic: each result is the exact one, rounded. The divisor of the modelled
  code is the literal \<open>10000\<close>; for a zero divisor the quotient is that of \<open>+0\<close>.
\<close>

fun js_sub :: "jsnum \<Rightarrow> jsnum \<Rightarrow> jsnum" where
  "js_sub NaN b = NaN"
| "js_sub a NaN = NaN"
| "js_sub PosInf PosInf = NaN"
| "js_sub NegInf NegInf = NaN"
| "js_sub PosInf b = PosInf"
| "js_sub NegInf b = NegInf"
| "js_sub a PosInf = NegInf"
| "js_sub a NegInf = PosInf"
| "js_sub (Fin x) (Fin y) = to_number (x - y)"

fun js_div :: "jsnum \<Rightarrow> jsnum \<Rightarrow> jsnum" where
  "js_div NaN b = NaN"
| "js_div a NaN = NaN"
| "js_div (Fin x) (Fin y) =
     (if y = 0 then (if x = 0 then NaN else if 0 < x then PosInf else NegInf)
      else to_number (x / y))"
| "js_div (Fin x) b = Fin 0"
| "js_div PosInf (Fin y) = (if 0 \<le> y then PosInf else NegInf)"
| "js_div NegInf (Fin y) = (if 0 \<le> y then NegInf else PosInf)"
| "js_div a b = NaN"

fun Math_floor :: "jsnum \<Rightarrow> jsnum" where
  "Math_floor (Fin x) = Fin (of_int \<lfloor>x\<rfloor>)"
| "Math_floor n = n"

text \<open>
  A \<open>Date\<close> is its time value, in milliseconds since 1970-01-01: \<open>new Date(ms)\<close> clips
  the number (\<open>TimeClip\<close>) to an integer of magnitude at most \<open>8.64e15\<close>, and to \<open>NaN\<close>,
  the invalid date, otherwise.
\<close>

datatype jsdate = Date jsnum

fun TimeClip :: "jsnum \<Rightarrow> jsnum" where
  "TimeClip (Fin x) =
     (if 8640000000000000 < \<bar>x\<bar> then NaN
      else Fin (of_int (if 0 \<le> x then \<lfloor>x\<rfloor> else \<lceil>x\<rceil>)))"
| "TimeClip n = NaN"

definition new_Date :: "jsnum \<Rightarrow> jsdate" where
  "new_Date ms = Date (TimeClip ms)"

text \<open>Array indexing \<open>a[i]\<close>: \<open>undefined\<close> (\<open>None\<close>) past the end.\<close>

definition index :: "'a list \<Rightarrow> nat \<Rightarrow> 'a option" where
  "index xs i = (if i < length xs then Some (xs ! i) else None)"

text \<open>\<open>Array.prototype.join\<close> takes an \<open>undefined\<close> element as the empty string.\<close>

definition join_opt :: "string \<Rightarrow> string option list \<Rightarrow> string" where
  "join_opt sep xs = join sep (map (\<lambda>x. case x of None \<Rightarrow> [] | Some s \<Rightarrow> s) xs)"

definition getTimeIntFromUUID :: "string \<Rightarrow> jsnum result" where
  "getTimeIntFromUUID uuid_str =
     (let uuid_arr = js_split uuid_str ''-''
      in case index uuid_arr 2 of
           None \<Rightarrow> Inl (TypeError ''Cannot read properties of undefined'')
         | Some g2 \<Rightarrow>
             let time_str = join_opt [] [Some (drop 1 g2), index uuid_arr 1, index uuid_arr 0]
             in Inr (parseInt time_str 16))"

definition getDateFromUUID :: "string \<Rightarrow> jsdate result" where
  "getDateFromUUID uuid_str =
     bind_res (getTimeIntFromUUID uuid_str) (\<lambda>t.
       let timeInt = js_sub t (Fin 122192928000000000);
           miliSecsInt = Math_floor (js_div timeInt (Fin 10000))
       in Inr (new_Date miliSecsInt))"

section \<open>Pair\<close>

record pair_obj =
  p_1 :: jsval
  p_2 :: jsval

definition pair :: "jsval \<Rightarrow> jsval \<Rightarrow> pair_obj" where
  "pair s1 s2 = \<lparr>p_1 = s1, p_2 = s2\<rparr>"

text \<open>
  \<open>Pair.str\<close>. The text \<open>JSON.stringify\<close> gives a value that is neither a string nor a
  number is a parameter, \<open>stringify\<close> (\<open>None\<close> for \<open>undefined\<close>), as is \<open>nts\<close>. An omitted
  separator is \<open>None\<close>.
\<close>

definition str_part ::
  "(rat \<Rightarrow> string) \<Rightarrow> (jsval \<Rightarrow> string option) \<Rightarrow> jsval \<Rightarrow> string option" where
  "str_part nts stringify v =
     (case v of
        Str s \<Rightarrow> Some s
      | Num n \<Rightarrow> Some (number_toString nts n)
      | _ \<Rightarrow> stringify v)"

definition str ::
  "(rat \<Rightarrow> string) \<Rightarrow> (jsval \<Rightarrow> string option) \<Rightarrow> pair_obj \<Rightarrow> string option \<Rightarrow> string" where
  "str nts stringify this sep =
     (let s1 = str_part nts stringify (p_1 this);
          s2 = str_part nts stringify (p_2 this)
      in join_opt (case sep of None \<Rightarrow> ''|'' | Some s \<Rightarrow> s) [s1, s2])"

text \<open>
  \<open>pairFirst\<close> and \<open>pairSecond\<close>: an omitted separator is \<open>"|"\<close>, an omitted \<open>f\<close> the
  identity; \<open>f\<close> receives a string, or \<open>undefined\<close> where the split has no such part.
\<close>

definition str_or_undefined :: "string option \<Rightarrow> jsval" where
  "str_or_undefined x = (case x of None \<Rightarrow> Undefined | Some s \<Rightarrow> Str s)"

definition pairFirst :: "string \<Rightarrow> string option \<Rightarrow> (jsval \<Rightarrow> jsval) option \<Rightarrow> jsval" where
  "pairFirst s sep f =
     (case f of None \<Rightarrow> (\<lambda>s. s) | Some g \<Rightarrow> g)
       (str_or_undefined (index (js_split s (case sep of None \<Rightarrow> ''|'' | Some x \<Rightarrow> x)) 0))"

definition pairSecond :: "string \<Rightarrow> string option \<Rightarrow> (jsval \<Rightarrow> jsval) option \<Rightarrow> jsval" where
  "pairSecond s sep f =
     (case f of None \<Rightarrow> (\<lambda>s. s) | Some g \<Rightarrow> g)
       (str_or_undefined (index (js_split s (case sep of None \<Rightarrow> ''|'' | Some x \<Rightarrow> x)) 1))"

section \<open>parseIntNull\<close>

text \<open>
  \<open>lodash.parseInt(string)\<close> on the string \<open>lodash.toString\<close> makes of its argument (a
  string argument is that string): leading white space removed, then the native
  \<open>parseInt\<close> with radix 0. \<open>isNaN(i) ? null : (i || null)\<close> follows.
\<close>

definition lodash_parseInt :: "string \<Rightarrow> jsnum" where
  "lodash_parseInt s = parseInt (dropWhile is_white s) 0"

definition parseIntNull :: "string \<Rightarrow> jsval" where
  "parseIntNull v =
     (let i = lodash_parseInt v
      in if i = NaN then Null else (if truthy (Num i) then Num i else Null))"


section \<open>Properties\<close>

subsection \<open>APILogicError\<close>

text \<open>
  C7. For all titles, messages, status codes, error codes and primitive context
  parameters, the error built by \<open>logicError\<close> serializes through \<open>toJSON\<close> to exactly
  the object \<open>{httpCode, code, title, message, pars}\<close>, in this order, holding the
  constructor's arguments; \<open>logicError("T","M",404,10,"x").toJSON()\<close> is
  \<open>{httpCode:404, code:10, title:"T", message:"M", pars:["x"]}\<close>.
\<close>

theorem logicError_toJSON:
  "toJSON (logicError title msg httpError errorCode pars) =
     Obj [(''httpCode'', Num httpError),
          (''code'', Num errorCode),
          (''title'', Str title),
          (''message'', Str msg),
          (''pars'', Arr (map prim_val pars) [])]
   \<and> toJSON (logicError ''T'' ''M'' (Fin 404) (Fin 10) [PStr ''x'']) =
     Obj [(''httpCode'', Num (Fin 404)),
          (''code'', Num (Fin 10)),
          (''title'', Str ''T''),
          (''message'', Str ''M''),
          (''pars'', Arr [Str ''x''] [])]"
  by (simp add: toJSON_def logicError_def APILogicError_def)

subsection \<open>pack\<close>

lemma lodash_max_Max: "lodash_max ns = (if ns = [] then None else Some (Max (set ns)))"
proof (cases ns)
  case Nil
  then show ?thesis by simp
next
  case (Cons a as)
  then show ?thesis using Max.set_eq_fold [of a as] by simp
qed

lemma pack_loop_Some:
  "pack_loop arrs (Some k) i ret =
     ret @ map (\<lambda>j. map (\<lambda>arr. if j < length arr then arr ! j else Undefined) arrs) [i..<k]"
proof (induction arrs "Some k :: nat option" i ret rule: pack_loop.induct)
  case (1 arrs i ret)
  show ?case
  proof (cases "i < k")
    case True
    then have "pack_loop arrs (Some k) i ret =
        pack_loop arrs (Some k) (i + 1)
          (ret @ [map (\<lambda>arr. if length arr > i then arr ! i else Undefined) arrs])"
      by (subst pack_loop.simps) simp
    also have "\<dots> = (ret @ [map (\<lambda>arr. if length arr > i then arr ! i else Undefined) arrs])
        @ map (\<lambda>j. map (\<lambda>arr. if j < length arr then arr ! j else Undefined) arrs) [i + 1..<k]"
      using "1.hyps" True by simp
    finally show ?thesis using True by (simp add: upt_conv_Cons)
  next
    case False
    then show ?thesis by (subst pack_loop.simps) simp
  qed
qed

text \<open>
  C5. For every list of input arrays, \<open>pack\<close> returns as many tuples as the longest
  input array has elements (none when every input is empty, or when there is no input);
  tuple \<open>i\<close> holds element \<open>i\<close> of each input array, and \<open>undefined\<close>, the absent marker,
  for an array that ends before \<open>i\<close>; \<open>pack([1,2,3],["a","b"])\<close> is
  \<open>[[1,"a"],[2,"b"],[3,undefined]]\<close>.
\<close>

theorem pack_tuples:
  "pack arrs =
     map (\<lambda>i. map (\<lambda>arr. if i < length arr then arr ! i else Undefined) arrs)
       [0..<Max (insert 0 (set (map length arrs)))]
   \<and> length (pack arrs) = Max (insert 0 (set (map length arrs)))
   \<and> pack [[Num (Fin 1), Num (Fin 2), Num (Fin 3)], [Str ''a'', Str ''b'']] =
       [[Num (Fin 1), Str ''a''], [Num (Fin 2), Str ''b''], [Num (Fin 3), Undefined]]"
proof -
  have rows: "pack as =
     map (\<lambda>i. map (\<lambda>arr. if i < length arr then arr ! i else Undefined) as)
       [0..<Max (insert 0 (set (map length as)))]" for as
  proof (cases "as = []")
    case True
    then show ?thesis by (simp add: pack_def)
  next
    case False
    then have "Max (insert 0 (set (map length as))) = Max (set (map length as))"
      by (simp add: max_def)
    with False show ?thesis
      by (simp add: pack_def lodash_max_Max pack_loop_Some del: pack_loop.simps)
  qed
  have len: "length (pack arrs) = Max (insert 0 (set (map length arrs)))"
    by (subst rows) simp
  have ex: "pack [[Num (Fin 1), Num (Fin 2), Num (Fin 3)], [Str ''a'', Str ''b'']] =
       [[Num (Fin 1), Str ''a''], [Num (Fin 2), Str ''b''], [Num (Fin 3), Undefined]]"
    by (simp add: pack_def upt_conv_Cons pack_loop_Some del: pack_loop.simps)
  from rows [of arrs] len ex show ?thesis by blast
qed

subsection \<open>Pair\<close>

lemma split_from_skip:
  "c \<notin> set s \<Longrightarrow> split_from [c] acc (s @ rest) = split_from [c] (rev s @ acc) rest"
  by (induction s arbitrary: acc) auto

lemma split_from_one: "c \<notin> set s \<Longrightarrow> split_from [c] [] s = [s]"
  using split_from_skip [of c s "[]" "[]"] by simp

lemma split_from_two:
  assumes "c \<notin> set s1" and "c \<notin> set s2"
  shows "split_from [c] [] (s1 @ [c] @ s2) = [s1, s2]"
proof -
  have "split_from [c] [] (s1 @ [c] @ s2) = split_from [c] (rev s1) (c # s2)"
    using split_from_skip [OF assms(1), of "[]" "c # s2"] by simp
  also have "\<dots> = s1 # split_from [c] [] s2"
    by simp
  finally show ?thesis
    using split_from_one [OF assms(2)] by simp
qed

text \<open>
  C10. For all strings \<open>s1\<close> and \<open>s2\<close> that contain no \<open>"|"\<close>, the rendered pair
  decomposes again: with the default separator and the identity transform,
  \<open>pairFirst(pair(s1, s2).str())\<close> is \<open>s1\<close> and \<open>pairSecond(pair(s1, s2).str())\<close> is \<open>s2\<close>.
\<close>

theorem pair_str_roundtrip:
  assumes "CHR ''|'' \<notin> set s1" and "CHR ''|'' \<notin> set s2"
  shows "pairFirst (str nts stringify (pair (Str s1) (Str s2)) None) None None = Str s1
       \<and> pairSecond (str nts stringify (pair (Str s1) (Str s2)) None) None None = Str s2"
proof -
  have rendered: "str nts stringify (pair (Str s1) (Str s2)) None = s1 @ ''|'' @ s2"
    by (simp add: str_def pair_def str_part_def join_opt_def)
  have parts: "js_split (s1 @ ''|'' @ s2) ''|'' = [s1, s2]"
    using split_from_two [OF assms] by (simp add: js_split_def)
  show ?thesis
    using parts
    by (simp add: pairFirst_def pairSecond_def rendered index_def str_or_undefined_def)
qed

theorem pair_str_roundtrip_witness:
  "CHR ''|'' \<notin> set ''ab'' \<and> CHR ''|'' \<notin> set ''cd''
   \<and> pairFirst (str (\<lambda>r. []) (\<lambda>v. None) (pair (Str ''ab'') (Str ''cd'')) None) None None
       = Str ''ab''
   \<and> pairSecond (str (\<lambda>r. []) (\<lambda>v. None) (pair (Str ''ab'') (Str ''cd'')) None) None None
       = Str ''cd''"
proof -
  have a: "CHR ''|'' \<notin> set ''ab''" and b: "CHR ''|'' \<notin> set ''cd''"
    by simp_all
  from pair_str_roundtrip [OF a b, of "\<lambda>r. []" "\<lambda>v. None"] a b show ?thesis
    by blast
qed

subsection \<open>parseIntNull\<close>

lemma parseInt_zero: "parseInt ''0'' 0 = Fin 0"
  by (simp add: parseInt_def is_white_def is_digit_in_def digit_of_def to_number_def fl_def)

lemma parseInt_letters: "parseInt ''abc'' 0 = NaN"
  by (simp add: parseInt_def is_white_def is_digit_in_def digit_of_def)

text \<open>
  C9. \<open>parseIntNull\<close> maps a parse failure (\<open>NaN\<close>) and a parsed zero alike to \<open>null\<close>,
  and returns every other parsed number; \<open>parseIntNull("0")\<close> is \<open>null\<close>, as is
  \<open>parseIntNull("abc")\<close>, so the result does not tell \<open>"0"\<close> from an unparseable input.
\<close>

theorem parseIntNull_zero_is_null:
  "parseIntNull v =
     (if lodash_parseInt v = NaN \<or> lodash_parseInt v = Fin 0 then Null
      else Num (lodash_parseInt v))
   \<and> parseIntNull ''0'' = Null
   \<and> parseIntNull ''abc'' = Null"
proof -
  have general: "parseIntNull v =
     (if lodash_parseInt v = NaN \<or> lodash_parseInt v = Fin 0 then Null
      else Num (lodash_parseInt v))"
    by (simp add: parseIntNull_def Let_def)
  have zero: "parseIntNull ''0'' = Null"
    by (simp add: parseIntNull_def lodash_parseInt_def is_white_def parseInt_zero)
  have letters: "parseIntNull ''abc'' = Null"
    by (simp add: parseIntNull_def lodash_parseInt_def is_white_def parseInt_letters)
  from general zero letters show ?thesis by blast
qed

subsection \<open>isEmpty\<close>

text \<open>
  The method of the class, input by input: beside the inputs the specification lists
  it takes an instance of a class such as \<open>Error\<close> for empty when it has no enumerable
  own key, and an object without a prototype never.
\<close>

lemma isEmpty_method:
  "isEmpty obj =
     (case obj of
        Undefined \<Rightarrow> True
      | Null \<Rightarrow> True
      | Bool b \<Rightarrow> \<not> b
      | Num n \<Rightarrow> n = NaN
      | Str s \<Rightarrow> s = []
      | Arr xs ps \<Rightarrow> xs = []
      | Obj ps \<Rightarrow> ps = []
      | NullProtoObj ps \<Rightarrow> False
      | ErrObj c h ps \<Rightarrow> ps = [])"
  by (cases obj) (auto simp add: isEmpty_def)

text \<open>On the exported object the name \<open>isEmpty\<close> is \<open>lodash.isEmpty\<close>.\<close>

lemma exported_isEmpty: "exported_call ''isEmpty'' v = Some (lodash_isEmpty v)"
  by (simp add: exported_call_def exported_own_def lodash_merge_def lodash_functions_def)

text \<open>The inputs on which the two differ.\<close>

lemma isEmpty_differs:
  "(lodash_isEmpty v \<noteq> isEmpty v) =
     ((\<exists>n. v = Num n \<and> n \<noteq> NaN) \<or> v = Bool True \<or> v = NullProtoObj [])"
  by (cases v) (auto simp add: isEmpty_def)

text \<open>
  C6, on the code. \<open>_.isEmpty(0)\<close>, on the object the module exports, is true, and so
  is \<open>_.isEmpty(true)\<close>: line 353 has put \<open>lodash.isEmpty\<close> over the method of the
  class, and no number or boolean has an own property. The method of lines 74 to 79
  returns false for both, as the claim has it.
\<close>

theorem isEmpty_shadowed:
  "exported_call ''isEmpty'' (Num (Fin 0)) = Some True
   \<and> isEmpty (Num (Fin 0)) = False
   \<and> exported_call ''isEmpty'' (Bool True) = Some True
   \<and> isEmpty (Bool True) = False"
  by (simp add: exported_call_def exported_own_def lodash_merge_def lodash_functions_def
      isEmpty_def)

subsection \<open>Async route adaptation\<close>

lemma invoke_run:
  "invoke callback err data w =
     (fst (callback err data (resp w)),
      w\<lparr>resp := snd (callback err data (resp w)), calls := calls w @ [(err, data)]\<rparr>)"
  by (simp add: invoke_def split: prod.splits)



lemma routeAsync_catch_calls:
  "calls (routeAsync_catch callback err w) = calls w @ [(err, Undefined)]"
  by (simp add: routeAsync_catch_def invoke_run Let_def split: option.splits)

text \<open>
  The invocations of one request under \<open>routeAsync\<close>: one for a rejection and for a
  fulfilment whose invocation returns, two when that invocation throws.
\<close>

lemma routeAsync_calls:
  "calls (snd (routeAsync nts reqHandler callbackProvider req w)) =
     calls w @
       (case choose_callback nts callbackProvider req of
          Inl e \<Rightarrow> []
        | Inr callback \<Rightarrow>
            (case reqHandler req of
               Inl e \<Rightarrow> []
             | Inr Pending \<Rightarrow> []
             | Inr (Fulfilled data) \<Rightarrow>
                 (case fst (callback Null data (resp w)) of
                    None \<Rightarrow> [(Null, data)]
                  | Some e \<Rightarrow> [(Null, data), (e, Undefined)])
             | Inr (Rejected err) \<Rightarrow> [(err, Undefined)]))"
  by (simp add: routeAsync_def routeAsync_catch_calls invoke_run
      split: option.splits sum.splits promise.splits)

text \<open>
  C2, on the code. The rejection handler of \<open>routeAsync\<close> is chained after the
  fulfilment handler, so a callback that throws when invoked with \<open>(null, result)\<close> is
  invoked a second time, with the value it threw: here the handler completes with \<open>1\<close>
  and the provided callback throws a \<open>TypeError\<close> on a success invocation.
  \<open>routeNextableAsync\<close>, which passes both handlers to one \<open>then\<close>, invokes the same
  callback once.
\<close>

theorem routeAsync_invokes_twice:
  "calls (snd (routeAsync (\<lambda>r. [])
            (\<lambda>req. Inr (Fulfilled (Num (Fin 1))))
            (Some (\<lambda>req. Inr (\<lambda>err data r.
               (if err = Null then Some (TypeError ''boom'') else None, r))))
            ()
            \<lparr>resp = \<lparr>statusCode = Undefined, sent = []\<rparr>, calls = [], console = [],
               unhandled = []\<rparr>))
     = [(Null, Num (Fin 1)), (TypeError ''boom'', Undefined)]
   \<and> calls (snd (routeNextableAsync (\<lambda>r. [])
            (\<lambda>req. Inr (Fulfilled (Num (Fin 1))))
            (Some (\<lambda>req. Inr (\<lambda>err data r.
               (if err = Null then Some (TypeError ''boom'') else None, r))))
            ()
            \<lparr>resp = \<lparr>statusCode = Undefined, sent = []\<rparr>, calls = [], console = [],
               unhandled = []\<rparr>))
     = [(Null, Num (Fin 1))]"
  by (simp add: routeAsync_def routeNextableAsync_def routeAsync_catch_def invoke_def
      choose_callback_def TypeError_def)

subsection \<open>createServiceCallback\<close>

lemma map_of_assign: "map_of (assign ps k v) = (map_of ps)(k \<mapsto> v)"
  by (induction ps) auto

lemma json_value_object:
  assumes "instanceof_Object v"
  shows "\<exists>obj. json_value v = Some obj \<and> instanceof_Object obj \<and> \<not> instanceof_Error obj"
  using assms by (cases v) (simp_all add: Let_def)

lemma set_prop_object:
  assumes "instanceof_Object obj" and "\<not> instanceof_Error obj"
  shows "\<exists>obj'. set_prop obj k v = Inr obj' \<and> instanceof_Object obj' \<and> \<not> instanceof_Error obj'
           \<and> (\<forall>k'. field obj' k' = (if k' = k then v else field obj k'))"
  using assms by (cases obj) (simp_all add: map_of_assign)

lemma get_prop_object: "instanceof_Object obj \<Longrightarrow> get_prop obj k = Inr (field obj k)"
  by (cases obj) simp_all

lemma backfill_object:
  assumes obj: "instanceof_Object err"
    and code: "ToString nts (field err ''code'') = Inr s"
  shows "\<exists>obj0 errObj.
           json_roundtrip err = Inr obj0 \<and> backfill nts err = Inr errObj
         \<and> instanceof_Object errObj
         \<and> field errObj ''message'' =
             (if nullish (field obj0 ''message'') then field err ''message''
              else field obj0 ''message'')
         \<and> field errObj ''code'' =
             (if nullish (field obj0 ''code'') then Num (parseInt s 0)
              else field obj0 ''code'')
         \<and> (\<forall>k. k \<noteq> ''message'' \<and> k \<noteq> ''code'' \<longrightarrow> field errObj k = field obj0 k)"
proof -
  from json_value_object [OF obj] obtain obj0
    where rt: "json_value err = Some obj0"
      and o0: "instanceof_Object obj0" "\<not> instanceof_Error obj0"
    by blast
  define obj1 where
    "obj1 = (if nullish (field obj0 ''message'')
             then set_prop obj0 ''message'' (field err ''message'') else Inr obj0)"
  from set_prop_object [OF o0, of "''message''" "field err ''message''"] o0
  obtain o1 where o1: "obj1 = Inr o1" "instanceof_Object o1" "\<not> instanceof_Error o1"
    and f1: "\<forall>k'. field o1 k' =
               (if k' = ''message'' \<and> nullish (field obj0 ''message'')
                then field err ''message'' else field obj0 k')"
    unfolding obj1_def by (cases "nullish (field obj0 ''message'')") auto
  define obj2 where
    "obj2 = (if nullish (field o1 ''code'')
             then set_prop o1 ''code'' (Num (parseInt s 0)) else Inr o1)"
  from set_prop_object [OF o1(2,3), of "''code''" "Num (parseInt s 0)"] o1
  obtain o2 where o2: "obj2 = Inr o2" "instanceof_Object o2"
    and f2: "\<forall>k'. field o2 k' =
               (if k' = ''code'' \<and> nullish (field o1 ''code'')
                then Num (parseInt s 0) else field o1 k')"
    unfolding obj2_def by (cases "nullish (field o1 ''code'')") auto
  have "backfill nts err = obj2"
    using rt o0 o1 code
    by (simp add: backfill_def json_roundtrip_def bind_res_def get_prop_object
        obj1_def [symmetric] obj2_def)
  moreover have "json_roundtrip err = Inr obj0"
    using rt by (simp add: json_roundtrip_def)
  ultimately show ?thesis
    using o2 f1 f2 by (intro exI [of _ obj0] exI [of _ o2]) simp
qed

lemma json_field_lookup:
  "json_field (map (\<lambda>(k, v). (k, json_value v)) ps) k = json_value (lookup ps k)"
  by (induction ps) (auto simp add: json_field_def)

text \<open>
  The round trip of an \<open>APILogicError\<close> is the round trip of what its \<open>toJSON\<close> returns.
\<close>

lemma json_value_APILogicError:
  assumes "map_of ps ''toJSON'' = None"
  shows "json_value (ErrObj APILogicErrorClass h ps) =
           json_value (toJSON (ErrObj APILogicErrorClass h ps))"
proof (cases h)
  case None
  have "map_of (map (\<lambda>(k, v). (k, json_value v)) ps) ''message'' =
      map_option json_value (map_of ps ''message'')"
    by (induction ps) auto
  with assms None show ?thesis
    by (simp add: toJSON_def Let_def json_field_lookup split: option.splits)
next
  case (Some m)
  with assms show ?thesis
    by (simp add: toJSON_def Let_def json_field_lookup)
qed

lemma parseInt_undefined: "parseInt ''undefined'' 0 = NaN"
  by (simp add: parseInt_def is_white_def is_digit_in_def digit_of_def)

text \<open>
  The status test is \<open>isNumber(code) && !isNaN(code)\<close>: it lets an infinity through.
\<close>

lemma createServiceCallback_infinite_status:
  "statusCode (snd (createServiceCallback (\<lambda>r. []) (Obj [(''httpCode'', Num PosInf)])
      Undefined \<lparr>statusCode = Undefined, sent = []\<rparr>)) = Num PosInf"
  by (simp add: createServiceCallback_def backfill_def json_roundtrip_def bind_res_def
      parseInt_undefined)

lemma truthy_object: "instanceof_Object v \<Longrightarrow> truthy v"
  by (cases v) simp_all

lemma response_data_object:
  assumes "\<not> truthy data \<or> instanceof_Object data"
  shows "\<exists>resData. (if truthy data then json_roundtrip data else Inr (Obj [])) = Inr resData
           \<and> instanceof_Object resData \<and> \<not> instanceof_Error resData"
proof (cases "truthy data")
  case True
  with assms have "instanceof_Object data" by simp
  from json_value_object [OF this] True show ?thesis
    by (auto simp add: json_roundtrip_def)
next
  case False
  then show ?thesis by simp
qed

lemma status_of_httpCode:
  "(if isNumber c \<and> \<not> lodash_isNaN c then c else Num (Fin 500)) =
   (if isNumber c \<and> c \<noteq> Num NaN then c else Num (Fin 500))"
  by (cases c) simp_all

text \<open>
  The error path on an error value that is an instance of \<open>Object\<close> (a plain object,
  an array or an \<open>Error\<close> instance of the model) whose \<open>code\<close> converts to a string,
  with \<open>data\<close> that is falsy or such an instance: the callback does not throw; it
  backfills \<open>message\<close>, with \<open>err.message\<close>, and \<open>code\<close>, with the number
  \<open>parseInt(err.code)\<close> (possibly \<open>NaN\<close>), in the round-tripped error object where
  they are \<open>undefined\<close> or \<open>null\<close> after the round trip, and leaves its other fields;
  it sets the status to the error's \<open>httpCode\<close> when that is a number other than \<open>NaN\<close>
  and to 500 otherwise; and it sends one envelope, whose \<open>err\<close> field is the resulting
  error object.
\<close>

lemma createServiceCallback_object_error:
  assumes "instanceof_Object err"
    and "\<not> truthy data \<or> instanceof_Object data"
    and "ToString nts (field err ''code'') = Inr s"
  shows "(\<exists>obj0 errObj envelope.
            json_roundtrip err = Inr obj0
          \<and> createServiceCallback nts err data res =
              (None,
               res\<lparr>statusCode :=
                      (if isNumber (field err ''httpCode'') \<and> field err ''httpCode'' \<noteq> Num NaN
                       then field err ''httpCode'' else Num (Fin 500)),
                    sent := sent res @ [envelope]\<rparr>)
          \<and> field envelope ''err'' = errObj
          \<and> field errObj ''message'' =
              (if nullish (field obj0 ''message'') then field err ''message''
               else field obj0 ''message'')
          \<and> field errObj ''code'' =
              (if nullish (field obj0 ''code'') then Num (parseInt s 0)
               else field obj0 ''code'')
          \<and> (\<forall>k. k \<noteq> ''message'' \<and> k \<noteq> ''code'' \<longrightarrow> field errObj k = field obj0 k))
       \<and> createServiceCallback nts
            (Obj [(''httpCode'', Num (Fin 404)), (''message'', Str ''nf'')]) Undefined res =
           (None,
            res\<lparr>statusCode := Num (Fin 404),
                 sent := sent res @
                   [Obj [(''err'',
                          Obj [(''httpCode'', Num (Fin 404)), (''message'', Str ''nf''),
                               (''code'', Num NaN)])]]\<rparr>)"
proof -
  from backfill_object [OF assms(1) assms(3)] obtain obj0 errObj
    where rt: "json_roundtrip err = Inr obj0"
      and bf: "backfill nts err = Inr errObj"
      and msg: "field errObj ''message'' =
                  (if nullish (field obj0 ''message'') then field err ''message''
                   else field obj0 ''message'')"
      and code: "field errObj ''code'' =
                  (if nullish (field obj0 ''code'') then Num (parseInt s 0)
                   else field obj0 ''code'')"
      and rest: "\<forall>k. k \<noteq> ''message'' \<and> k \<noteq> ''code'' \<longrightarrow> field errObj k = field obj0 k"
    by blast
  from response_data_object [OF assms(2)] obtain resData
    where rd: "(if truthy data then json_roundtrip data else Inr (Obj [])) = Inr resData"
      and rdo: "instanceof_Object resData" "\<not> instanceof_Error resData"
    by blast
  from set_prop_object [OF rdo, of "''err''" errObj] obtain envelope
    where env: "set_prop resData ''err'' errObj = Inr envelope"
      and fenv: "field envelope ''err'' = errObj"
    by auto
  have run: "createServiceCallback nts err data res =
      (None,
       res\<lparr>statusCode :=
              (if isNumber (field err ''httpCode'') \<and> field err ''httpCode'' \<noteq> Num NaN
               then field err ''httpCode'' else Num (Fin 500)),
            sent := sent res @ [envelope]\<rparr>)"
    unfolding createServiceCallback_def rd
    using truthy_object [OF assms(1)] bf env
    by (simp add: Let_def status_of_httpCode)
  have example: "createServiceCallback nts
            (Obj [(''httpCode'', Num (Fin 404)), (''message'', Str ''nf'')]) Undefined res =
           (None,
            res\<lparr>statusCode := Num (Fin 404),
                 sent := sent res @
                   [Obj [(''err'',
                          Obj [(''httpCode'', Num (Fin 404)), (''message'', Str ''nf''),
                               (''code'', Num NaN)])]]\<rparr>)"
    by (simp add: createServiceCallback_def backfill_def json_roundtrip_def bind_res_def
        parseInt_undefined Let_def)
  have "\<exists>obj0 errObj envelope.
            json_roundtrip err = Inr obj0
          \<and> createServiceCallback nts err data res =
              (None,
               res\<lparr>statusCode :=
                      (if isNumber (field err ''httpCode'') \<and> field err ''httpCode'' \<noteq> Num NaN
                       then field err ''httpCode'' else Num (Fin 500)),
                    sent := sent res @ [envelope]\<rparr>)
          \<and> field envelope ''err'' = errObj
          \<and> field errObj ''message'' =
              (if nullish (field obj0 ''message'') then field err ''message''
               else field obj0 ''message'')
          \<and> field errObj ''code'' =
              (if nullish (field obj0 ''code'') then Num (parseInt s 0)
               else field obj0 ''code'')
          \<and> (\<forall>k. k \<noteq> ''message'' \<and> k \<noteq> ''code'' \<longrightarrow> field errObj k = field obj0 k)"
    apply (rule exI [of _ obj0])
    apply (rule exI [of _ errObj])
    apply (rule exI [of _ envelope])
    apply (intro conjI)
         apply (rule rt)
        apply (rule run)
       apply (rule fenv)
      apply (rule msg)
     apply (rule code)
    apply (rule rest)
    done
  then show ?thesis
    using example by (rule conjI)
qed

text \<open>
  An \<open>Error\<close> instance loses its \<open>message\<close> in the round trip, and the backfill
  restores it.
\<close>

lemma createServiceCallback_Error_instance:
  "instanceof_Object (ErrObj ErrorClass (Some (Str ''boom'')) [(''httpCode'', Num (Fin 503))])
   \<and> \<not> truthy Undefined
   \<and> ToString (\<lambda>r. [])
        (field (ErrObj ErrorClass (Some (Str ''boom'')) [(''httpCode'', Num (Fin 503))])
           ''code'') = Inr ''undefined''
   \<and> (\<exists>envelope.
         createServiceCallback (\<lambda>r. [])
           (ErrObj ErrorClass (Some (Str ''boom'')) [(''httpCode'', Num (Fin 503))]) Undefined
           \<lparr>statusCode = Undefined, sent = []\<rparr> =
         (None, \<lparr>statusCode = Num (Fin 503), sent = [envelope]\<rparr>)
       \<and> field (field envelope ''err'') ''message'' = Str ''boom''
       \<and> field (field envelope ''err'') ''code'' = Num NaN
       \<and> field (field envelope ''err'') ''httpCode'' = Num (Fin 503))"
proof -
  let ?err = "ErrObj ErrorClass (Some (Str ''boom'')) [(''httpCode'', Num (Fin 503))]"
  let ?res0 = "\<lparr>statusCode = Undefined, sent = []\<rparr>"
  have h1: "instanceof_Object ?err" by simp
  have h2: "\<not> truthy Undefined \<or> instanceof_Object Undefined" by simp
  have h3: "ToString (\<lambda>r. []) (field ?err ''code'') = Inr ''undefined''" by simp
  from createServiceCallback_object_error [OF h1 h2 h3, of ?res0]
  obtain obj0 errObj envelope
    where rt: "json_roundtrip ?err = Inr obj0"
      and run: "createServiceCallback (\<lambda>r. []) ?err Undefined ?res0 =
                  (None, \<lparr>statusCode = Num (Fin 503), sent = [envelope]\<rparr>)"
      and env: "field envelope ''err'' = errObj"
      and msg: "field errObj ''message'' =
                  (if nullish (field obj0 ''message'') then field ?err ''message''
                   else field obj0 ''message'')"
      and code: "field errObj ''code'' =
                  (if nullish (field obj0 ''code'') then Num (parseInt ''undefined'' 0)
                   else field obj0 ''code'')"
      and rest: "\<forall>k. k \<noteq> ''message'' \<and> k \<noteq> ''code'' \<longrightarrow> field errObj k = field obj0 k"
    by auto
  have obj0: "obj0 = Obj [(''httpCode'', Num (Fin 503))]"
    using rt by (simp add: json_roundtrip_def)
  have "field (field envelope ''err'') ''message'' = Str ''boom''"
    using env msg obj0 by simp
  moreover have "field (field envelope ''err'') ''code'' = Num NaN"
    using env code obj0 by (simp add: parseInt_undefined)
  moreover have "field (field envelope ''err'') ''httpCode'' = Num (Fin 503)"
    using env rest obj0 by simp
  ultimately have "\<exists>envelope.
         createServiceCallback (\<lambda>r. []) ?err Undefined ?res0 =
         (None, \<lparr>statusCode = Num (Fin 503), sent = [envelope]\<rparr>)
       \<and> field (field envelope ''err'') ''message'' = Str ''boom''
       \<and> field (field envelope ''err'') ''code'' = Num NaN
       \<and> field (field envelope ''err'') ''httpCode'' = Num (Fin 503)"
    using run by (intro exI [of _ envelope] conjI)
  moreover have "\<not> truthy Undefined" by simp
  ultimately show ?thesis
    using h1 h3 by (intro conjI)
qed

text \<open>
  Every truthy error value that is no object makes the callback throw, the status at
  the 200 set before: a boolean, a finite number and a string at the assignment of
  \<open>message\<close>, an infinity at the reading of \<open>message\<close> from \<open>null\<close>, its round trip.
\<close>

lemma createServiceCallback_primitive_error:
  assumes "truthy err" and "\<not> truthy data"
    and "err = Bool b \<or> err = Num n \<or> err = Str s"
  shows "\<exists>e. createServiceCallback nts err data res =
           (Some e, res\<lparr>statusCode := Num (Fin 200)\<rparr>)"
proof -
  have "\<exists>e. backfill nts err = Inl e"
    using assms(1,3)
    by (cases n) (auto simp add: backfill_def json_roundtrip_def bind_res_def)
  then show ?thesis
    using assms(1,2) by (auto simp add: createServiceCallback_def)
qed

text \<open>
  Response data that is a string: the status is set, the assignment of \<open>err\<close> to the
  string throws, and nothing is sent.
\<close>

lemma createServiceCallback_string_data:
  "createServiceCallback (\<lambda>r. [])
     (Obj [(''httpCode'', Num (Fin 404)), (''message'', Str ''nf'')]) (Str ''text'')
     \<lparr>statusCode = Undefined, sent = []\<rparr> =
   (Some (TypeError ''Cannot create property on string''),
    \<lparr>statusCode = Num (Fin 404), sent = []\<rparr>)"
  by (simp add: createServiceCallback_def backfill_def json_roundtrip_def bind_res_def
      parseInt_undefined Let_def)

text \<open>
  C1, on the code. The error value \<open>"boom"\<close> is a string, what \<open>routeAsync\<close> hands
  the callback when a handler did \<open>throw "boom"\<close>. Its round trip is the string again,
  \<open>errObj.message\<close> is \<open>undefined\<close>, and the assignment \<open>errObj.message = err.message\<close>
  throws a \<open>TypeError\<close>, the module being in strict mode: the callback throws with the
  status at the 200 set before and sends nothing, and under \<open>routeAsync\<close> its exception
  is a rejection that nobody handles. The claim has status 500 and an envelope for
  every error value. For the error object \<open>{httpCode:404, message:"nf"}\<close> the callback
  does what the claim says.
\<close>

theorem createServiceCallback_string_error:
  "createServiceCallback (\<lambda>r. []) (Str ''boom'') Undefined
      \<lparr>statusCode = Undefined, sent = []\<rparr> =
     (Some (TypeError ''Cannot create property on string''),
      \<lparr>statusCode = Num (Fin 200), sent = []\<rparr>)
   \<and> routeAsync (\<lambda>r. []) (\<lambda>req. Inr (Rejected (Str ''boom''))) None ()
        \<lparr>resp = \<lparr>statusCode = Undefined, sent = []\<rparr>, calls = [], console = [],
           unhandled = []\<rparr> =
       (None,
        \<lparr>resp = \<lparr>statusCode = Num (Fin 200), sent = []\<rparr>,
           calls = [(Str ''boom'', Undefined)], console = [],
           unhandled = [TypeError ''Cannot create property on string'']\<rparr>)
   \<and> createServiceCallback (\<lambda>r. [])
        (Obj [(''httpCode'', Num (Fin 404)), (''message'', Str ''nf'')]) Undefined
        \<lparr>statusCode = Undefined, sent = []\<rparr> =
       (None,
        \<lparr>statusCode = Num (Fin 404),
           sent = [Obj [(''err'',
                         Obj [(''httpCode'', Num (Fin 404)), (''message'', Str ''nf''),
                              (''code'', Num NaN)])]]\<rparr>)"
proof -
  have boom: "createServiceCallback (\<lambda>r. []) (Str ''boom'') Undefined
      \<lparr>statusCode = Undefined, sent = []\<rparr> =
     (Some (TypeError ''Cannot create property on string''),
      \<lparr>statusCode = Num (Fin 200), sent = []\<rparr>)"
    by (simp add: createServiceCallback_def backfill_def json_roundtrip_def bind_res_def)
  have route: "routeAsync (\<lambda>r. []) (\<lambda>req. Inr (Rejected (Str ''boom''))) None ()
        \<lparr>resp = \<lparr>statusCode = Undefined, sent = []\<rparr>, calls = [], console = [],
           unhandled = []\<rparr> =
       (None,
        \<lparr>resp = \<lparr>statusCode = Num (Fin 200), sent = []\<rparr>,
           calls = [(Str ''boom'', Undefined)], console = [],
           unhandled = [TypeError ''Cannot create property on string'']\<rparr>)"
    by (simp add: routeAsync_def routeAsync_catch_def choose_callback_def invoke_def boom)
  have nf: "createServiceCallback (\<lambda>r. [])
        (Obj [(''httpCode'', Num (Fin 404)), (''message'', Str ''nf'')]) Undefined
        \<lparr>statusCode = Undefined, sent = []\<rparr> =
       (None,
        \<lparr>statusCode = Num (Fin 404),
           sent = [Obj [(''err'',
                         Obj [(''httpCode'', Num (Fin 404)), (''message'', Str ''nf''),
                              (''code'', Num NaN)])]]\<rparr>)"
    by (simp add: createServiceCallback_def backfill_def json_roundtrip_def bind_res_def
        parseInt_undefined Let_def)
  from boom route nf show ?thesis by (intro conjI)
qed

subsection \<open>Rounding to binary64\<close>

lemma pow2_powi: "pow2 e = 2 powi e"
  by (simp add: pow2_def power_int_def power_divide inverse_eq_divide)

lemma pow2_pos: "0 < pow2 e"
  by (simp add: pow2_powi)

lemma pow2_add: "pow2 (a + b) = pow2 a * pow2 b"
  by (simp add: pow2_powi power_int_add)

lemma pow2_mono: "a \<le> b \<Longrightarrow> pow2 a \<le> pow2 b"
  by (simp add: pow2_powi power_int_increasing)

lemma ilog2_bounds:
  assumes "0 < x"
  shows "pow2 (ilog2 x) \<le> x \<and> x < pow2 (ilog2 x + 1)"
proof (cases "1 \<le> x")
  case True
  define n where "n = \<lfloor>x\<rfloor>"
  have n: "0 < n" "of_int n \<le> x" "x < of_int n + 1"
    using True by (simp_all add: n_def) linarith
  from bitlen_bounds [OF n(1)] have b: "2 ^ nat (bitlen n - 1) \<le> n" "n < 2 ^ nat (bitlen n)"
    by simp_all
  have b1: "1 \<le> bitlen n"
    using n(1) bitlen_eq_zero_iff [of n] bitlen_nonneg [of n] by linarith
  have e: "ilog2 x = bitlen n - 1"
    using True by (simp add: ilog2_def n_def)
  have "pow2 (bitlen n - 1) = of_int (2 ^ nat (bitlen n - 1))"
    using b1 by (simp add: pow2_def)
  also have "\<dots> \<le> of_int n"
    using b(1) by (simp only: of_int_le_iff)
  also have "\<dots> \<le> x"
    by (rule n(2))
  finally have lo: "pow2 (ilog2 x) \<le> x"
    using e by simp
  have "n + 1 \<le> 2 ^ nat (bitlen n)"
    using b(2) by simp
  then have "(of_int (n + 1) :: rat) \<le> of_int (2 ^ nat (bitlen n))"
    by (simp only: of_int_le_iff)
  also have "\<dots> = pow2 (bitlen n)"
    using b1 by (simp add: pow2_def)
  finally have "of_int n + 1 \<le> pow2 (bitlen n)"
    by simp
  with n(3) have "x < pow2 (bitlen n)"
    by simp
  then have "x < pow2 (ilog2 x + 1)"
    using e by simp
  with lo show ?thesis ..
next
  case False
  define m where "m = \<lceil>1 / x\<rceil>"
  have y: "1 < 1 / x"
    using False assms by simp
  have m: "1 / x \<le> of_int m" "of_int m - 1 < 1 / x"
    by (simp_all add: m_def) linarith
  have "(1 :: rat) < of_int m"
    using y m(1) by (rule less_le_trans)
  then have m1: "0 < m - 1"
    by simp
  define k where "k = bitlen (m - 1)"
  from bitlen_bounds [OF m1] have b: "2 ^ nat (k - 1) \<le> m - 1" "m - 1 < 2 ^ nat k"
    by (simp_all add: k_def)
  have k1: "1 \<le> k"
    using m1 bitlen_eq_zero_iff [of "m - 1"] bitlen_nonneg [of "m - 1"]
    unfolding k_def by linarith
  have e: "ilog2 x = - k"
    using False by (simp add: ilog2_def m_def k_def)
  have "m \<le> 2 ^ nat k"
    using b(2) by simp
  then have "(of_int m :: rat) \<le> of_int (2 ^ nat k)"
    by (simp only: of_int_le_iff)
  also have "\<dots> = 2 ^ nat k"
    by simp
  finally have "1 / x \<le> 2 ^ nat k"
    using m(1) by (rule order_trans [rotated])
  then have "1 \<le> 2 ^ nat k * x"
    using assms by (simp add: field_simps)
  then have "1 / 2 ^ nat k \<le> x"
    by (simp add: field_simps)
  moreover have "pow2 (- k) = 1 / 2 ^ nat k"
    using k1 by (simp add: pow2_def)
  ultimately have lo: "pow2 (ilog2 x) \<le> x"
    using e by simp
  have "(2 ^ nat (k - 1) :: rat) = of_int (2 ^ nat (k - 1))"
    by simp
  also have "\<dots> \<le> of_int (m - 1)"
    using b(1) by (simp only: of_int_le_iff)
  also have "\<dots> < 1 / x"
    using m(2) by simp
  finally have "2 ^ nat (k - 1) < 1 / x" .
  then have "2 ^ nat (k - 1) * x < 1"
    using assms by (simp add: field_simps)
  then have hi': "x < 1 / 2 ^ nat (k - 1)"
    by (simp add: field_simps)
  have "pow2 (- k + 1) = 1 / 2 ^ nat (k - 1)"
  proof (cases "k = 1")
    case True
    then show ?thesis by (simp add: pow2_def)
  next
    case False
    with k1 have "- k + 1 < 0" by simp
    moreover have "nat (- (- k + 1)) = nat (k - 1)" by simp
    ultimately show ?thesis by (simp add: pow2_def)
  qed
  with hi' e have "x < pow2 (ilog2 x + 1)"
    by simp
  with lo show ?thesis ..
qed

lemma round_half_even_error: "\<bar>of_int (round_half_even x) - x\<bar> \<le> 1 / 2"
proof -
  have "of_int \<lfloor>x\<rfloor> \<le> x" "x < of_int \<lfloor>x\<rfloor> + 1"
    by simp_all linarith
  then show ?thesis
    by (auto simp add: round_half_even_def Let_def abs_le_iff)
qed

lemma round_half_even_int: "round_half_even (of_int n) = n"
  by (simp add: round_half_even_def)

text \<open>
  The error of one rounding, for a nonzero \<open>x\<close> of binary exponent \<open>e\<close> in the normal
  range: half a unit in the last place, \<open>2^(e-53)\<close>, which is at most \<open>|x| / 2^53\<close>.
\<close>

lemma fl_error_ulp:
  assumes "x \<noteq> 0" and "- 1022 \<le> ilog2 \<bar>x\<bar>"
  shows "\<bar>fl x - x\<bar> \<le> pow2 (ilog2 \<bar>x\<bar> - 53)"
proof -
  define u where "u = pow2 (ilog2 \<bar>x\<bar> - 52)"
  have u: "0 < u" by (simp add: u_def pow2_pos)
  have flx: "fl x = of_int (round_half_even (x / u)) * u"
    using assms by (simp add: fl_def Let_def u_def max_def)
  have "fl x - x = (of_int (round_half_even (x / u)) - x / u) * u"
    using u by (simp add: flx field_simps)
  then have "\<bar>fl x - x\<bar> = \<bar>of_int (round_half_even (x / u)) - x / u\<bar> * u"
    using u by (simp add: abs_mult)
  also have "\<dots> \<le> (1 / 2) * u"
    using round_half_even_error [of "x / u"] u by (intro mult_right_mono) simp_all
  also have "\<dots> = pow2 (ilog2 \<bar>x\<bar> - 53)"
  proof -
    have "pow2 (ilog2 \<bar>x\<bar> - 52) = pow2 ((ilog2 \<bar>x\<bar> - 53) + 1)" by simp
    also have "\<dots> = pow2 (ilog2 \<bar>x\<bar> - 53) * 2"
      by (simp only: pow2_add) (simp add: pow2_def)
    finally show ?thesis by (simp add: u_def)
  qed
  finally show ?thesis .
qed

lemma fl_error_rel:
  assumes "x \<noteq> 0" and "pow2 (- 1022) \<le> \<bar>x\<bar>"
  shows "\<bar>fl x - x\<bar> \<le> \<bar>x\<bar> / 2 ^ 53"
proof -
  have pos: "0 < \<bar>x\<bar>" using assms(1) by simp
  from ilog2_bounds [OF pos] have b: "pow2 (ilog2 \<bar>x\<bar>) \<le> \<bar>x\<bar>" "\<bar>x\<bar> < pow2 (ilog2 \<bar>x\<bar> + 1)"
    by simp_all
  have e: "- 1022 \<le> ilog2 \<bar>x\<bar>"
  proof (rule ccontr)
    assume "\<not> - 1022 \<le> ilog2 \<bar>x\<bar>"
    then have "ilog2 \<bar>x\<bar> + 1 \<le> - 1022" by simp
    then have "pow2 (ilog2 \<bar>x\<bar> + 1) \<le> pow2 (- 1022)" by (rule pow2_mono)
    with b(2) assms(2) show False by simp
  qed
  have "pow2 (ilog2 \<bar>x\<bar>) = pow2 ((ilog2 \<bar>x\<bar> - 53) + 53)" by simp
  also have "\<dots> = pow2 (ilog2 \<bar>x\<bar> - 53) * 2 ^ 53"
    by (simp only: pow2_add) (simp add: pow2_def)
  finally have "pow2 (ilog2 \<bar>x\<bar> - 53) = pow2 (ilog2 \<bar>x\<bar>) / 2 ^ 53"
    by simp
  also have "\<dots> \<le> \<bar>x\<bar> / 2 ^ 53"
    using b(1) by (simp add: divide_right_mono)
  finally show ?thesis
    using fl_error_ulp [OF assms(1) e] by simp
qed

text \<open>The literals of \<open>getDateFromUUID\<close> are binary64 values.\<close>

lemma literals_binary64:
  "fl 122192928000000000 = 122192928000000000" "fl 10000 = 10000"
  by code_simp+

lemma ilog2_less:
  assumes "0 < x" and "x < pow2 k"
  shows "ilog2 x < k"
proof (rule ccontr)
  assume "\<not> ilog2 x < k"
  then have "pow2 k \<le> pow2 (ilog2 x)" by (simp add: pow2_mono)
  with ilog2_bounds [OF assms(1)] assms(2) show False by simp
qed

lemma ilog2_ge:
  assumes "pow2 k \<le> x"
  shows "k \<le> ilog2 x"
proof (rule ccontr)
  assume "\<not> k \<le> ilog2 x"
  then have "pow2 (ilog2 x + 1) \<le> pow2 k" by (simp add: pow2_mono)
  moreover have "0 < x" using pow2_pos [of k] assms by simp
  ultimately show False using ilog2_bounds [of x] assms by simp
qed

text \<open>An integer of magnitude below \<open>2^53\<close> is a binary64 value: rounding keeps it.\<close>

lemma fl_int_exact:
  assumes "\<bar>n\<bar> < 2 ^ 53"
  shows "fl (of_int n) = of_int n"
proof (cases "n = 0")
  case True
  then show ?thesis by (simp add: fl_def)
next
  case False
  define x :: rat where "x = of_int n"
  define e where "e = ilog2 \<bar>x\<bar>"
  have x0: "x \<noteq> 0" using False by (simp add: x_def)
  have "1 \<le> \<bar>n\<bar>"
    using False by simp
  then have "(of_int 1 :: rat) \<le> of_int \<bar>n\<bar>"
    by (simp only: of_int_le_iff)
  then have "pow2 0 \<le> \<bar>x\<bar>"
    by (simp add: pow2_def x_def)
  then have e0: "0 \<le> e"
    unfolding e_def by (rule ilog2_ge)
  have "(of_int \<bar>n\<bar> :: rat) < of_int (2 ^ 53)"
    using assms by (simp only: of_int_less_iff)
  then have "\<bar>x\<bar> < pow2 53"
    by (simp add: pow2_def x_def)
  then have e53: "e < 53"
    unfolding e_def using x0 by (intro ilog2_less) simp_all
  define j where "j = nat (52 - e)"
  have u: "pow2 (e - 52) = 1 / 2 ^ j"
  proof (cases "e = 52")
    case True
    then show ?thesis by (simp add: pow2_def j_def)
  next
    case False
    with e53 have "e - 52 < 0" by simp
    moreover have "nat (- (e - 52)) = j" by (simp add: j_def)
    ultimately show ?thesis by (simp add: pow2_def)
  qed
  have "x / pow2 (e - 52) = of_int (n * 2 ^ j)"
    by (simp add: u x_def)
  then have "round_half_even (x / pow2 (e - 52)) = n * 2 ^ j"
    by (simp only: round_half_even_int)
  then have "fl x = of_int (n * 2 ^ j) * pow2 (e - 52)"
    using x0 e0 by (simp add: fl_def Let_def e_def [symmetric] max_def)
  also have "\<dots> = x"
    by (simp add: u x_def)
  finally show ?thesis by (simp add: x_def)
qed

text \<open>
  The error of one rounding of any rational: relative \<open>2^-53\<close>, or half the spacing
  \<open>2^-1074\<close> of the subnormal numbers.
\<close>

lemma fl_error:
  "\<bar>fl x - x\<bar> \<le> \<bar>x\<bar> / 2 ^ 53 + pow2 (- 1075)"
proof (cases "x = 0")
  case True
  then show ?thesis using pow2_pos [of "- 1075"] by (simp add: fl_def)
next
  case x0: False
  show ?thesis
  proof (cases "- 1022 \<le> ilog2 \<bar>x\<bar>")
    case True
    then have "pow2 (- 1022) \<le> pow2 (ilog2 \<bar>x\<bar>)" by (rule pow2_mono)
    also have "\<dots> \<le> \<bar>x\<bar>" using ilog2_bounds [of "\<bar>x\<bar>"] x0 by simp
    finally have "\<bar>fl x - x\<bar> \<le> \<bar>x\<bar> / 2 ^ 53"
      using fl_error_rel [OF x0] by simp
    then show ?thesis using pow2_pos [of "- 1075"] by linarith
  next
    case False
    define u where "u = pow2 (- 1074)"
    have u: "0 < u" by (simp add: u_def pow2_pos)
    have flx: "fl x = of_int (round_half_even (x / u)) * u"
      using x0 False by (simp add: fl_def Let_def u_def max_def)
    have "fl x - x = (of_int (round_half_even (x / u)) - x / u) * u"
      using u by (simp add: flx field_simps)
    then have "\<bar>fl x - x\<bar> = \<bar>of_int (round_half_even (x / u)) - x / u\<bar> * u"
      using u by (simp add: abs_mult)
    also have "\<dots> \<le> (1 / 2) * u"
      using round_half_even_error [of "x / u"] u by (intro mult_right_mono) simp_all
    also have "\<dots> = pow2 (- 1075)"
    proof -
      have "pow2 (- 1074) = pow2 (- 1075 + 1)" by simp
      also have "\<dots> = pow2 (- 1075) * 2"
        by (simp only: pow2_add) (simp add: pow2_def)
      finally show ?thesis by (simp add: u_def)
    qed
    finally show ?thesis by (simp add: add_increasing)
  qed
qed

subsection \<open>UUID timestamps\<close>

lemma split_from_sep:
  "c \<notin> set s \<Longrightarrow> split_from [c] [] (s @ c # rest) = s # split_from [c] [] rest"
  using split_from_skip [of c s "[]" "c # rest"] by simp

lemma split_uuid:
  assumes "CHR ''-'' \<notin> set g0" "CHR ''-'' \<notin> set g1" "CHR ''-'' \<notin> set g2"
    "CHR ''-'' \<notin> set g3" "CHR ''-'' \<notin> set g4"
  shows "js_split (g0 @ ''-'' @ g1 @ ''-'' @ g2 @ ''-'' @ g3 @ ''-'' @ g4) ''-'' =
           [g0, g1, g2, g3, g4]"
  using assms by (simp add: js_split_def split_from_sep split_from_one)

lemma hex_digit_not_special:
  assumes "is_digit_in 16 c"
  shows "c \<noteq> CHR ''-''" "c \<noteq> CHR ''+''" "c \<noteq> CHR ''x''" "c \<noteq> CHR ''X''" "\<not> is_white c"
  using assms
  by (auto simp add: is_digit_in_def digit_of_def is_white_def Let_def split: if_splits)

lemma hex_no_hyphen: "list_all (is_digit_in 16) g \<Longrightarrow> CHR ''-'' \<notin> set g"
  using hex_digit_not_special(1) by (auto simp add: list_all_iff)

lemma digits_value_bounds:
  assumes "list_all (is_digit_in R) Z" and "0 \<le> acc" and "0 < R"
  shows "acc * R ^ length Z \<le> digits_value R acc Z
       \<and> digits_value R acc Z < (acc + 1) * R ^ length Z"
  using assms
proof (induction Z arbitrary: acc)
  case Nil
  then show ?case by simp
next
  case (Cons c Z)
  from Cons.prems(1) obtain d where d: "digit_of c = Some d" "d < R"
    by (auto simp add: is_digit_in_def split: option.splits)
  have d0: "0 \<le> d"
    using d(1) by (auto simp add: digit_of_def Let_def split: if_splits)
  have acc': "0 \<le> acc * R + d"
    using Cons.prems(2,3) d0 by simp
  from Cons.IH [OF _ acc' Cons.prems(3)] Cons.prems(1)
  have ih: "(acc * R + d) * R ^ length Z \<le> digits_value R (acc * R + d) Z"
    "digits_value R (acc * R + d) Z < (acc * R + d + 1) * R ^ length Z"
    by simp_all
  have p: "0 \<le> R ^ length Z"
    using Cons.prems(3) by simp
  have lo: "acc * R * R ^ length Z \<le> (acc * R + d) * R ^ length Z"
    using d0 p by (intro mult_right_mono) simp_all
  have hi: "(acc * R + d + 1) * R ^ length Z \<le> (acc + 1) * R * R ^ length Z"
    using d(2) p by (intro mult_right_mono) (simp_all add: algebra_simps)
  from ih lo hi show ?case
    by (simp add: d(1) mult.assoc)
qed

lemma parseInt_hex:
  assumes "list_all (is_digit_in 16) Z" and "Z \<noteq> []"
  shows "parseInt Z 16 = to_number (of_int (digits_value 16 0 Z))"
proof -
  obtain c cs where Z: "Z = c # cs"
    using assms(2) by (cases Z) auto
  have c: "is_digit_in 16 c"
    using assms(1) Z by simp
  note sp = hex_digit_not_special [OF c]
  have white: "dropWhile is_white Z = Z"
    using sp(5) Z by simp
  have nosign: "take 1 Z \<noteq> ''-''" "take 1 Z \<noteq> ''+''"
    using sp(1,2) Z by simp_all
  have no0x: "take 2 Z \<noteq> ''0x''" "take 2 Z \<noteq> ''0X''"
  proof -
    show "take 2 Z \<noteq> ''0x''"
    proof
      assume "take 2 Z = ''0x''"
      then obtain cs' where "cs = CHR ''x'' # cs'"
        using Z by (cases cs) auto
      with assms(1) Z have "is_digit_in 16 (CHR ''x'')" by simp
      with hex_digit_not_special(3) show False by blast
    qed
    show "take 2 Z \<noteq> ''0X''"
    proof
      assume "take 2 Z = ''0X''"
      then obtain cs' where "cs = CHR ''X'' # cs'"
        using Z by (cases cs) auto
      with assms(1) Z have "is_digit_in 16 (CHR ''X'')" by simp
      with hex_digit_not_special(4) show False by blast
    qed
  qed
  have all: "takeWhile (is_digit_in 16) Z = Z"
    using assms(1) by (simp add: list_all_iff)
  show ?thesis
    unfolding parseInt_def white
    using nosign no0x assms(2) by (simp add: all)
qed

lemma js_split_example:
  "js_split ''6ba7b811-9dad-11d1-80b4-00c04fd430c8'' ''-'' =
     [''6ba7b811'', ''9dad'', ''11d1'', ''80b4'', ''00c04fd430c8'']"
  by (simp add: js_split_def)

lemma digits_value_example: "digits_value 16 0 ''1d19dad6ba7b811'' = 131059232331511825"
  by (simp add: digit_of_def)

lemma fl_example: "fl 131059232331511825 = 131059232331511824"
  by code_simp

lemma to_number_example: "to_number 131059232331511825 = Fin 131059232331511824"
  by (simp add: to_number_def fl_example)

lemma parseInt_example: "parseInt ''1d19dad6ba7b811'' 16 = Fin 131059232331511824"
proof -
  have "list_all (is_digit_in 16) ''1d19dad6ba7b811''"
    by (simp add: is_digit_in_def digit_of_def)
  then have "parseInt ''1d19dad6ba7b811'' 16 =
      to_number (of_int (digits_value 16 0 ''1d19dad6ba7b811''))"
    by (rule parseInt_hex) simp
  then show ?thesis
    unfolding digits_value_example by (simp add: to_number_example)
qed

text \<open>
  C4, as stated, fails: the result is a Number, and a 60-bit integer need not be one.
  For the RFC 4122 URL namespace identifier the reassembled hexadecimal string is
  \<open>1d19dad6ba7b811\<close>, the integer 131059232331511825, and \<open>getTimeIntFromUUID\<close>
  returns 131059232331511824.
\<close>

theorem getTimeIntFromUUID_counterexample:
  "getTimeIntFromUUID ''6ba7b811-9dad-11d1-80b4-00c04fd430c8'' = Inr (Fin 131059232331511824)
   \<and> digits_value 16 0 (drop 1 ''11d1'' @ ''9dad'' @ ''6ba7b811'') = 131059232331511825"
  using digits_value_example
  by (simp add: getTimeIntFromUUID_def js_split_example index_def join_opt_def
      parseInt_example)

lemma hex_value_bounds:
  assumes "list_all (is_digit_in 16) Z"
  shows "0 \<le> digits_value 16 0 Z \<and> digits_value 16 0 Z < 16 ^ length Z"
  using digits_value_bounds [OF assms, of 0] by simp

lemma fl_timestamp:
  assumes "0 \<le> T" and "T < 2 ^ 60"
  shows "\<bar>fl (of_int T) - of_int T\<bar> \<le> 64"
proof (cases "T = 0")
  case True
  then show ?thesis by (simp add: fl_def)
next
  case False
  define x :: rat where "x = of_int T"
  have x: "x \<noteq> 0" "\<bar>x\<bar> = x"
    using False assms(1) by (simp_all add: x_def)
  have "1 \<le> T" using False assms(1) by simp
  then have "(of_int 1 :: rat) \<le> of_int T" by (simp only: of_int_le_iff)
  then have "pow2 0 \<le> x" by (simp add: pow2_def x_def)
  then have e0: "0 \<le> ilog2 x" by (rule ilog2_ge)
  have "(of_int T :: rat) < of_int (2 ^ 60)"
    using assms(2) by (simp only: of_int_less_iff)
  then have "x < pow2 60" by (simp add: pow2_def x_def)
  then have e60: "ilog2 x < 60"
    using x by (intro ilog2_less) simp_all
  have "\<bar>fl x - x\<bar> \<le> pow2 (ilog2 \<bar>x\<bar> - 53)"
    using x(1) e0 by (intro fl_error_ulp) (simp_all add: x(2))
  also have "\<dots> \<le> pow2 6"
    using e60 by (intro pow2_mono) (simp add: x(2))
  also have "\<dots> = 64" by (simp add: pow2_def)
  finally show ?thesis by (simp add: x_def)
qed

lemma to_number_timestamp:
  assumes "0 \<le> T" and "T < 2 ^ 60"
  shows "to_number (of_int T) = Fin (fl (of_int T))"
proof -
  have "(of_int T :: rat) < of_int (2 ^ 60)"
    using assms(2) by (simp only: of_int_less_iff)
  then have "(of_int T :: rat) < 2 ^ 60" by simp
  moreover have "(0 :: rat) \<le> of_int T" using assms(1) by simp
  ultimately have "\<bar>fl (of_int T)\<bar> < 2 ^ 61"
    using fl_timestamp [OF assms] by (simp add: abs_le_iff abs_less_iff)
  moreover have "(2 :: rat) ^ 61 < 2 ^ 1024" by simp
  ultimately have "fl (of_int T) < 2 ^ 1024" "- (2 ^ 1024) < fl (of_int T)"
    by (simp_all only: abs_less_iff) linarith+
  then show ?thesis
    by (simp add: to_number_def Let_def not_le [symmetric])
qed

text \<open>
  The run of \<open>getTimeIntFromUUID\<close> on five hexadecimal groups: the rounded value of
  the 15 digits that remain of the first three.
\<close>

lemma getTimeIntFromUUID_run:
  assumes "length g0 = 8" and "list_all (is_digit_in 16) g0"
    and "length g1 = 4" and "list_all (is_digit_in 16) g1"
    and "length g2 = 4" and "list_all (is_digit_in 16) g2"
    and "list_all (is_digit_in 16) g3"
    and "list_all (is_digit_in 16) g4"
  shows "getTimeIntFromUUID (g0 @ ''-'' @ g1 @ ''-'' @ g2 @ ''-'' @ g3 @ ''-'' @ g4) =
           Inr (Fin (fl (of_int (digits_value 16 0 (drop 1 g2 @ g1 @ g0)))))"
    and "0 \<le> digits_value 16 0 (drop 1 g2 @ g1 @ g0)"
    and "digits_value 16 0 (drop 1 g2 @ g1 @ g0) < 2 ^ 60"
proof -
  define Z where "Z = drop 1 g2 @ g1 @ g0"
  define T where "T = digits_value 16 0 Z"
  have hexZ: "list_all (is_digit_in 16) Z"
    using assms(2,4,6) by (auto simp add: Z_def list_all_iff dest: in_set_dropD)
  have lenZ: "length Z = 15"
    using assms(1,3,5) by (simp add: Z_def)
  then have Z0: "Z \<noteq> []" by auto
  from hex_value_bounds [OF hexZ] have T: "0 \<le> T" "T < 2 ^ 60"
    by (simp_all add: T_def lenZ)
  have split: "js_split (g0 @ ''-'' @ g1 @ ''-'' @ g2 @ ''-'' @ g3 @ ''-'' @ g4) ''-'' =
      [g0, g1, g2, g3, g4]"
    using assms(2,4,6,7,8) by (intro split_uuid hex_no_hyphen)
  have "getTimeIntFromUUID (g0 @ ''-'' @ g1 @ ''-'' @ g2 @ ''-'' @ g3 @ ''-'' @ g4) =
      Inr (parseInt Z 16)"
    unfolding getTimeIntFromUUID_def split
    by (simp add: index_def join_opt_def Z_def)
  also have "parseInt Z 16 = to_number (of_int T)"
    unfolding T_def using hexZ Z0 by (rule parseInt_hex)
  also have "\<dots> = Fin (fl (of_int T))"
    using T by (rule to_number_timestamp)
  finally show
    "getTimeIntFromUUID (g0 @ ''-'' @ g1 @ ''-'' @ g2 @ ''-'' @ g3 @ ''-'' @ g4) =
       Inr (Fin (fl (of_int (digits_value 16 0 (drop 1 g2 @ g1 @ g0)))))"
    unfolding T_def Z_def .
  from T show "0 \<le> digits_value 16 0 (drop 1 g2 @ g1 @ g0)"
    and "digits_value 16 0 (drop 1 g2 @ g1 @ g0) < 2 ^ 60"
    unfolding T_def Z_def by simp_all
qed

text \<open>
  C4, amended. For every canonical hyphenated version-1 UUID string (five
  hyphen-separated hexadecimal groups, of which the first three have 8, 4 and 4
  digits), \<open>getTimeIntFromUUID\<close> returns the Number nearest to the 60-bit timestamp
  integer: to the integer \<open>T\<close> that the time-high group without its leading version
  nibble, then the time-mid group, then the time-low group spell as one hexadecimal
  string. The result is within 64 of \<open>T\<close>, and is \<open>T\<close> itself when \<open>T\<close> is below \<open>2^53\<close>.
\<close>

theorem getTimeIntFromUUID_nearest:
  assumes "length g0 = 8" and "list_all (is_digit_in 16) g0"
    and "length g1 = 4" and "list_all (is_digit_in 16) g1"
    and "length g2 = 4" and "list_all (is_digit_in 16) g2"
    and "list_all (is_digit_in 16) g3"
    and "list_all (is_digit_in 16) g4"
  shows "getTimeIntFromUUID (g0 @ ''-'' @ g1 @ ''-'' @ g2 @ ''-'' @ g3 @ ''-'' @ g4) =
           Inr (Fin (fl (of_int (digits_value 16 0 (drop 1 g2 @ g1 @ g0)))))
       \<and> 0 \<le> digits_value 16 0 (drop 1 g2 @ g1 @ g0)
       \<and> digits_value 16 0 (drop 1 g2 @ g1 @ g0) < 2 ^ 60
       \<and> \<bar>fl (of_int (digits_value 16 0 (drop 1 g2 @ g1 @ g0)))
            - of_int (digits_value 16 0 (drop 1 g2 @ g1 @ g0))\<bar> \<le> 64
       \<and> (digits_value 16 0 (drop 1 g2 @ g1 @ g0) < 2 ^ 53 \<longrightarrow>
            fl (of_int (digits_value 16 0 (drop 1 g2 @ g1 @ g0))) =
            of_int (digits_value 16 0 (drop 1 g2 @ g1 @ g0)))"
proof -
  define T where "T = digits_value 16 0 (drop 1 g2 @ g1 @ g0)"
  note run = getTimeIntFromUUID_run [OF assms]
  have T: "0 \<le> T" "T < 2 ^ 60"
    using run(2,3) by (simp_all add: T_def)
  have exact: "T < 2 ^ 53 \<longrightarrow> fl (of_int T) = of_int T"
    using T(1) by (auto intro: fl_int_exact)
  from run(1) T fl_timestamp [OF T] exact show ?thesis
    unfolding T_def by (intro conjI)
qed

theorem getTimeIntFromUUID_nearest_witness:
  "length ''6ba7b810'' = 8 \<and> list_all (is_digit_in 16) ''6ba7b810''
   \<and> length ''9dad'' = 4 \<and> list_all (is_digit_in 16) ''9dad''
   \<and> length ''11d1'' = 4 \<and> list_all (is_digit_in 16) ''11d1''
   \<and> list_all (is_digit_in 16) ''80b4''
   \<and> list_all (is_digit_in 16) ''00c04fd430c8''
   \<and> getTimeIntFromUUID ''6ba7b810-9dad-11d1-80b4-00c04fd430c8'' =
       Inr (Fin (fl (of_int (digits_value 16 0 ''1d19dad6ba7b810''))))
   \<and> digits_value 16 0 ''1d19dad6ba7b810'' = 131059232331511824"
proof -
  have h: "length ''6ba7b810'' = 8" "list_all (is_digit_in 16) ''6ba7b810''"
    "length ''9dad'' = 4" "list_all (is_digit_in 16) ''9dad''"
    "length ''11d1'' = 4" "list_all (is_digit_in 16) ''11d1''"
    "list_all (is_digit_in 16) ''80b4''"
    "list_all (is_digit_in 16) ''00c04fd430c8''"
    by (simp_all add: is_digit_in_def digit_of_def)
  have "getTimeIntFromUUID
          (''6ba7b810'' @ ''-'' @ ''9dad'' @ ''-'' @ ''11d1'' @ ''-'' @ ''80b4'' @ ''-'' @
           ''00c04fd430c8'') =
        Inr (Fin (fl (of_int (digits_value 16 0 (drop 1 ''11d1'' @ ''9dad'' @ ''6ba7b810'')))))"
    using getTimeIntFromUUID_nearest [OF h] by (rule conjunct1)
  then have run: "getTimeIntFromUUID ''6ba7b810-9dad-11d1-80b4-00c04fd430c8'' =
       Inr (Fin (fl (of_int (digits_value 16 0 ''1d19dad6ba7b810''))))"
    by (simp only: append.simps drop_Suc_Cons drop_0 One_nat_def)
  have "digits_value 16 0 ''1d19dad6ba7b810'' = 131059232331511824"
    by (simp add: digit_of_def)
  with h run show ?thesis by (intro conjI)
qed

lemma pow2_tiny: "pow2 (- 1075) \<le> 1 / 1000"
  by (simp add: pow2_def)

lemma to_number_finite:
  assumes "\<bar>x\<bar> \<le> 2 ^ 62"
  shows "to_number x = Fin (fl x)"
proof -
  have "\<bar>x\<bar> / 2 ^ 53 \<le> 2 ^ 62 / 2 ^ 53"
    using assms by (rule divide_right_mono) simp
  then have "\<bar>x\<bar> / 2 ^ 53 \<le> 512" by simp
  with fl_error [of x] pow2_tiny have "\<bar>fl x - x\<bar> \<le> 513" by linarith
  with assms have "\<bar>fl x\<bar> \<le> 2 ^ 62 + 513" by linarith
  moreover have "(2 :: rat) ^ 62 + 513 < 2 ^ 1024" by simp
  ultimately have "fl x < 2 ^ 1024" "- (2 ^ 1024) < fl x"
    by (simp_all only: abs_le_iff) linarith+
  then show ?thesis
    by (simp add: to_number_def Let_def not_le [symmetric])
qed

text \<open>
  The three roundings of \<open>getDateFromUUID\<close>, for a tick count \<open>T\<close> below \<open>2^60\<close> that
  lies \<open>sub\<close> ticks after the millisecond \<open>ms\<close> of the Unix epoch.
\<close>

lemma date_rounding:
  fixes T ms sub :: int
  assumes T: "0 \<le> T" "T < 2 ^ 60"
    and D: "T = 122192928000000000 + 10000 * ms + sub"
    and sub: "0 \<le> sub" "sub < 10000"
  defines "s \<equiv> fl (fl (of_int T) - 122192928000000000)"
  defines "q \<equiv> fl (s / 10000)"
  shows "\<bar>fl (of_int T) - 122192928000000000\<bar> \<le> 2 ^ 62"
    and "\<bar>s / 10000\<bar> \<le> 2 ^ 62"
    and "\<bar>\<lfloor>q\<rfloor> - ms\<bar> \<le> 1"
    and "\<bar>(of_int \<lfloor>q\<rfloor> :: rat)\<bar> \<le> 8640000000000000"
    and "10000 * \<lfloor>q\<rfloor> \<le> 10000 * ms + sub + 393"
    and "10000 * ms + sub - 10393 < 10000 * \<lfloor>q\<rfloor>"
proof -
  define r where "r = fl (of_int T)"
  define x1 where "x1 = r - 122192928000000000"
  define x2 where "x2 = s / 10000"
  have Tr: "(0 :: rat) \<le> of_int T" "(of_int T :: rat) < 2 ^ 60"
  proof -
    show "(0 :: rat) \<le> of_int T" using T(1) by simp
    have "(of_int T :: rat) < of_int (2 ^ 60)"
      using T(2) by (simp only: of_int_less_iff)
    then show "(of_int T :: rat) < 2 ^ 60" by simp
  qed
  have Dr: "(of_int T :: rat) = 122192928000000000 + 10000 * of_int ms + of_int sub"
    by (simp add: D)
  have subr: "(0 :: rat) \<le> of_int sub" "(of_int sub :: rat) \<le> 9999"
  proof -
    show "(0 :: rat) \<le> of_int sub" using sub(1) by simp
    have "sub \<le> 9999" using sub(2) by simp
    then have "(of_int sub :: rat) \<le> of_int 9999" by (simp only: of_int_le_iff)
    then show "(of_int sub :: rat) \<le> 9999" by simp
  qed
  have r: "\<bar>r - of_int T\<bar> \<le> 64"
    unfolding r_def using T by (rule fl_timestamp)
  have x1: "\<bar>x1\<bar> \<le> 2 ^ 60 + 64"
    using r Tr unfolding x1_def by (simp add: abs_le_iff)
  then show "\<bar>fl (of_int T) - 122192928000000000\<bar> \<le> 2 ^ 62"
    unfolding x1_def r_def by simp
  have "\<bar>x1\<bar> / 2 ^ 53 \<le> (2 ^ 60 + 64) / 2 ^ 53"
    using x1 by (rule divide_right_mono) simp
  then have "\<bar>x1\<bar> / 2 ^ 53 \<le> 128 + 1 / 1000" by simp
  with fl_error [of x1] pow2_tiny have "\<bar>fl x1 - x1\<bar> \<le> 129" by linarith
  then have s1: "\<bar>s - x1\<bar> \<le> 129"
    by (simp add: s_def x1_def r_def)
  have sD: "\<bar>s - (10000 * of_int ms + of_int sub)\<bar> \<le> 193"
    using s1 r Dr unfolding x1_def by (simp add: abs_le_iff)
  have sabs: "\<bar>s\<bar> \<le> 2 ^ 60 + 193"
    using s1 x1 by (simp add: abs_le_iff)
  have x2abs: "\<bar>x2\<bar> \<le> (2 ^ 60 + 193) / 10000"
    using sabs unfolding x2_def by (simp add: abs_le_iff)
  then show "\<bar>s / 10000\<bar> \<le> 2 ^ 62"
    unfolding x2_def by simp
  have "\<bar>x2\<bar> / 2 ^ 53 \<le> (2 ^ 60 + 193) / 10000 / 2 ^ 53"
    using x2abs by (rule divide_right_mono) simp
  then have "\<bar>x2\<bar> / 2 ^ 53 \<le> 1 / 75" by simp
  with fl_error [of x2] pow2_tiny have "\<bar>fl x2 - x2\<bar> \<le> 1 / 50" by linarith
  then have q2: "\<bar>q - x2\<bar> \<le> 1 / 50"
    by (simp add: q_def x2_def)
  have x2s: "s = 10000 * x2"
    by (simp add: x2_def)
  have lo: "of_int ms - 1 \<le> q"
    using q2 sD x2s subr by linarith
  have hi: "q < of_int ms + 2"
    using q2 sD x2s subr by linarith
  have "of_int (ms - 1) \<le> q" using lo by simp
  then have flo: "ms - 1 \<le> \<lfloor>q\<rfloor>" by (simp only: le_floor_iff)
  have "q < of_int (ms + 2)" using hi by simp
  then have fhi: "\<lfloor>q\<rfloor> < ms + 2" by (simp only: floor_less_iff)
  from flo fhi show near: "\<bar>\<lfloor>q\<rfloor> - ms\<bar> \<le> 1" by simp
  have "10000 * ms \<le> T" "- 122192928000010000 < 10000 * ms"
    using D sub T by simp_all
  then have "ms < 1000000000000000" "- 1000000000000000 < ms"
    using T(2) by simp_all
  with near have "\<bar>\<lfloor>q\<rfloor>\<bar> \<le> 8640000000000000" by simp
  then have "(of_int \<bar>\<lfloor>q\<rfloor>\<bar> :: rat) \<le> of_int 8640000000000000"
    by (simp only: of_int_le_iff)
  then show "\<bar>(of_int \<lfloor>q\<rfloor> :: rat)\<bar> \<le> 8640000000000000" by simp
  have qD: "\<bar>10000 * q - (10000 * of_int ms + of_int sub)\<bar> \<le> 393"
    using q2 sD x2s by linarith
  have fq: "of_int \<lfloor>q\<rfloor> \<le> q" "q < of_int \<lfloor>q\<rfloor> + 1"
    by simp_all linarith
  have "10000 * of_int \<lfloor>q\<rfloor> \<le> 10000 * of_int ms + of_int sub + (393 :: rat)"
    using qD fq(1) by linarith
  then have "(of_int (10000 * \<lfloor>q\<rfloor>) :: rat) \<le> of_int (10000 * ms + sub + 393)"
    by simp
  then show "10000 * \<lfloor>q\<rfloor> \<le> 10000 * ms + sub + 393"
    by (simp only: of_int_le_iff)
  have "10000 * of_int ms + of_int sub - (10393 :: rat) < 10000 * of_int \<lfloor>q\<rfloor>"
    using qD fq(2) by linarith
  then have "(of_int (10000 * ms + sub - 10393) :: rat) < of_int (10000 * \<lfloor>q\<rfloor>)"
    by simp
  then show "10000 * ms + sub - 10393 < 10000 * \<lfloor>q\<rfloor>"
    by (simp only: of_int_less_iff)
qed

lemma round_half_even_ge: "of_int n \<le> x \<Longrightarrow> n \<le> round_half_even x"
proof -
  assume "of_int n \<le> x"
  then have "n \<le> \<lfloor>x\<rfloor>" by (simp only: le_floor_iff)
  moreover have "\<lfloor>x\<rfloor> \<le> round_half_even x"
    by (simp add: round_half_even_def Let_def)
  ultimately show ?thesis by simp
qed

lemma round_half_even_above_half:
  assumes "of_int n + 1 / 2 < x"
  shows "n + 1 \<le> round_half_even x"
proof -
  have "of_int n \<le> x" using assms by simp
  then have f: "n \<le> \<lfloor>x\<rfloor>" by (simp only: le_floor_iff)
  show ?thesis
  proof (cases "n = \<lfloor>x\<rfloor>")
    case True
    then have "1 / 2 < x - of_int \<lfloor>x\<rfloor>" using assms by simp
    then show ?thesis
      using True by (simp add: round_half_even_def Let_def)
  next
    case False
    with f have "n + 1 \<le> \<lfloor>x\<rfloor>" by simp
    moreover have "\<lfloor>x\<rfloor> \<le> round_half_even x"
      by (simp add: round_half_even_def Let_def)
    ultimately show ?thesis by simp
  qed
qed

text \<open>The binary exponent that \<open>fl\<close> works with, and the form of \<open>fl\<close> on a nonzero argument.\<close>

lemma fl_nonzero:
  "x \<noteq> 0 \<Longrightarrow>
     fl x = of_int (round_half_even (x / pow2 (max (ilog2 \<bar>x\<bar>) (- 1022) - 52)))
              * pow2 (max (ilog2 \<bar>x\<bar>) (- 1022) - 52)"
  by (simp add: fl_def Let_def)

lemma ilog2_mono:
  assumes "0 < x" and "x \<le> y"
  shows "ilog2 x \<le> ilog2 y"
proof -
  have "pow2 (ilog2 x) \<le> y"
    using ilog2_bounds [OF assms(1)] assms(2) by simp
  then show ?thesis by (rule ilog2_ge)
qed

lemma pow2_diff: "pow2 a / pow2 b = pow2 (a - b)"
proof -
  have "pow2 a = pow2 ((a - b) + b)" by simp
  also have "\<dots> = pow2 (a - b) * pow2 b" by (simp only: pow2_add)
  finally show ?thesis using pow2_pos [of b] by simp
qed

text \<open>
  Rounding does not cross a binary64 value: a value \<open>y\<close> that rounding keeps and that is
  at most \<open>x\<close> is at most the rounded \<open>x\<close>.
\<close>

lemma fl_above_representable:
  assumes y: "fl y = y" and le: "y \<le> x"
  shows "y \<le> fl x"
proof (cases "x = 0")
  case True
  then show ?thesis using le by (simp add: fl_def)
next
  case x0: False
  define ex where "ex = max (ilog2 \<bar>x\<bar>) (- 1022)"
  define ux where "ux = pow2 (ex - 52)"
  have ux: "0 < ux" by (simp add: ux_def pow2_pos)
  have flx: "fl x = of_int (round_half_even (x / ux)) * ux"
    using fl_nonzero [OF x0] by (simp add: ux_def ex_def)
  show ?thesis
  proof (cases "y = 0")
    case True
    then have "0 \<le> x / ux" using le ux by simp
    then have "of_int 0 \<le> x / ux" by simp
    then have "0 \<le> round_half_even (x / ux)" by (rule round_half_even_ge)
    then have "0 \<le> fl x" using ux by (simp add: flx)
    with True show ?thesis by simp
  next
    case y0: False
    define ey where "ey = max (ilog2 \<bar>y\<bar>) (- 1022)"
    define uy where "uy = pow2 (ey - 52)"
    have uy: "0 < uy" by (simp add: uy_def pow2_pos)
    have fly: "fl y = of_int (round_half_even (y / uy)) * uy"
      using fl_nonzero [OF y0] by (simp add: uy_def ey_def)
    define n where "n = round_half_even (y / uy)"
    have yn: "y = of_int n * uy"
      using y fly by (simp add: n_def)
    have same: "y \<le> fl x" if "ey = ex"
    proof -
      have "uy = ux" using that by (simp add: uy_def ux_def)
      then have "of_int n \<le> x / ux"
        using le yn ux by (simp add: field_simps)
      then have "n \<le> round_half_even (x / ux)" by (rule round_half_even_ge)
      then have "of_int n * ux \<le> of_int (round_half_even (x / ux)) * ux"
        using ux by simp
      then show ?thesis using \<open>uy = ux\<close> yn flx by simp
    qed
    consider (pos) "0 < x" "0 < y" | (mixed) "0 < x" "y < 0" | (neg) "x < 0"
      using x0 y0 by linarith
    then show ?thesis
    proof cases
      case mixed
      then have "of_int 0 \<le> x / ux" using ux by simp
      then have "0 \<le> round_half_even (x / ux)" by (rule round_half_even_ge)
      then have "0 \<le> fl x" using ux by (simp add: flx)
      with mixed show ?thesis by simp
    next
      case pos
      have "ilog2 \<bar>y\<bar> \<le> ilog2 \<bar>x\<bar>"
        using pos le by (intro ilog2_mono) simp_all
      then have "ey \<le> ex" by (simp add: ey_def ex_def)
      show ?thesis
      proof (cases "ey = ex")
        case True
        then show ?thesis by (rule same)
      next
        case False
        with \<open>ey \<le> ex\<close> have lt: "ey < ex" by simp
        have "- 1022 \<le> ey" by (simp add: ey_def)
        with lt have exx: "ex = ilog2 \<bar>x\<bar>" by (simp add: ex_def)
        have "ilog2 \<bar>y\<bar> + 1 \<le> ex" using lt by (simp add: ey_def)
        then have "pow2 (ilog2 \<bar>y\<bar> + 1) \<le> pow2 ex" by (rule pow2_mono)
        moreover have "\<bar>y\<bar> < pow2 (ilog2 \<bar>y\<bar> + 1)"
          using ilog2_bounds [of "\<bar>y\<bar>"] y0 by simp
        ultimately have ylt: "y < pow2 ex" by simp
        have "pow2 ex \<le> x"
          using ilog2_bounds [of "\<bar>x\<bar>"] x0 pos(1) exx by simp
        then have "pow2 ex / ux \<le> x / ux"
          using ux by (simp add: divide_right_mono)
        moreover have "pow2 ex / ux = of_int (2 ^ 52)"
          unfolding ux_def pow2_diff by (simp add: pow2_def)
        ultimately have "of_int (2 ^ 52) \<le> x / ux" by simp
        then have "2 ^ 52 \<le> round_half_even (x / ux)" by (rule round_half_even_ge)
        then have "of_int (2 ^ 52) * ux \<le> of_int (round_half_even (x / ux)) * ux"
          using ux by (simp only: mult_le_cancel_right_pos of_int_le_iff)
        moreover have "of_int (2 ^ 52) * ux = pow2 ex"
        proof -
          have "ex = 52 + (ex - 52)" by simp
          then have "pow2 ex = pow2 (52 + (ex - 52))" by (rule arg_cong)
          also have "\<dots> = pow2 52 * pow2 (ex - 52)" by (simp only: pow2_add)
          finally show ?thesis by (simp add: ux_def pow2_def)
        qed
        ultimately have "pow2 ex \<le> fl x" by (simp add: flx)
        with ylt show ?thesis by simp
      qed
    next
      case neg
      then have yneg: "y < 0" using le by simp
      have "ilog2 \<bar>x\<bar> \<le> ilog2 \<bar>y\<bar>"
        using neg le by (intro ilog2_mono) simp_all
      then have "ex \<le> ey" by (simp add: ey_def ex_def)
      show ?thesis
      proof (cases "ey = ex")
        case True
        then show ?thesis by (rule same)
      next
        case False
        with \<open>ex \<le> ey\<close> have lt: "ex < ey" by simp
        have "- 1022 \<le> ex" by (simp add: ex_def)
        with lt have eyy: "ey = ilog2 \<bar>y\<bar>" by (simp add: ey_def)
        have "ex + 1 \<le> ey" using lt by simp
        then have "pow2 (ex + 1) \<le> pow2 ey" by (rule pow2_mono)
        moreover have "pow2 ey \<le> \<bar>y\<bar>"
          using ilog2_bounds [of "\<bar>y\<bar>"] y0 eyy by simp
        ultimately have ybig: "y \<le> - pow2 (ex + 1)" using yneg by simp
        have "ilog2 \<bar>x\<bar> + 1 \<le> ex + 1" by (simp add: ex_def)
        then have "pow2 (ilog2 \<bar>x\<bar> + 1) \<le> pow2 (ex + 1)" by (rule pow2_mono)
        moreover have "\<bar>x\<bar> < pow2 (ilog2 \<bar>x\<bar> + 1)"
          using ilog2_bounds [of "\<bar>x\<bar>"] x0 by simp
        ultimately have "- pow2 (ex + 1) \<le> x" using neg by simp
        then have "(- pow2 (ex + 1)) / ux \<le> x / ux"
          using ux by (intro divide_right_mono) simp_all
        moreover have "pow2 (ex + 1) / ux = of_int (2 ^ 53)"
          unfolding ux_def pow2_diff by (simp add: pow2_def)
        ultimately have "of_int (- (2 ^ 53)) \<le> x / ux" by simp
        then have "- (2 ^ 53) \<le> round_half_even (x / ux)" by (rule round_half_even_ge)
        then have "of_int (- (2 ^ 53)) * ux \<le> of_int (round_half_even (x / ux)) * ux"
          using ux by (simp only: mult_le_cancel_right_pos of_int_le_iff)
        moreover have "of_int (2 ^ 53) * ux = pow2 (ex + 1)"
        proof -
          have "ex + 1 = 53 + (ex - 52)" by simp
          then have "pow2 (ex + 1) = pow2 (53 + (ex - 52))" by (rule arg_cong)
          also have "\<dots> = pow2 53 * pow2 (ex - 52)" by (simp only: pow2_add)
          finally show ?thesis by (simp add: ux_def pow2_def)
        qed
        ultimately have "- pow2 (ex + 1) \<le> fl x" by (simp add: flx)
        with ybig show ?thesis by simp
      qed
    qed
  qed
qed

text \<open>An integer of magnitude below \<open>2^53\<close>, times a power of two, is a binary64 value.\<close>

lemma fl_scaled_int_exact:
  assumes "\<bar>n\<bar> < 2 ^ 53"
  shows "fl (of_int n * 2 ^ k) = of_int n * 2 ^ k"
proof (cases "n = 0")
  case True
  then show ?thesis by (simp add: fl_def)
next
  case False
  define x :: rat where "x = of_int n * 2 ^ k"
  define e where "e = ilog2 \<bar>x\<bar>"
  have x0: "x \<noteq> 0" using False by (simp add: x_def)
  have ax: "\<bar>x\<bar> = of_int \<bar>n\<bar> * 2 ^ k"
    by (simp add: x_def abs_mult)
  have "1 \<le> \<bar>n\<bar>" using False by simp
  then have "(of_int 1 :: rat) \<le> of_int \<bar>n\<bar>" by (simp only: of_int_le_iff)
  then have "(1 :: rat) * 2 ^ k \<le> of_int \<bar>n\<bar> * 2 ^ k"
    by (intro mult_right_mono) simp_all
  then have "pow2 (int k) \<le> \<bar>x\<bar>"
    by (simp add: pow2_def ax)
  then have ek: "int k \<le> e"
    unfolding e_def by (rule ilog2_ge)
  have "(of_int \<bar>n\<bar> :: rat) < of_int (2 ^ 53)"
    using assms by (simp only: of_int_less_iff)
  then have "(of_int \<bar>n\<bar> :: rat) * 2 ^ k < of_int (2 ^ 53) * 2 ^ k"
    by (intro mult_strict_right_mono) simp_all
  moreover have "pow2 (53 + int k) = of_int (2 ^ 53) * 2 ^ k"
    by (simp only: pow2_add) (simp add: pow2_def)
  ultimately have "\<bar>x\<bar> < pow2 (53 + int k)"
    by (simp add: ax)
  then have e53: "e < 53 + int k"
    unfolding e_def using x0 by (intro ilog2_less) simp_all
  define j where "j = nat (52 + int k - e)"
  have jj: "int j = 52 + int k - e"
    using e53 by (simp add: j_def)
  have "pow2 (int k) = pow2 (int j + (e - 52))"
    using jj by simp
  also have "\<dots> = pow2 (int j) * pow2 (e - 52)"
    by (simp only: pow2_add)
  finally have pk: "(2 :: rat) ^ k = 2 ^ j * pow2 (e - 52)"
    by (simp add: pow2_def)
  have u: "0 < pow2 (e - 52)" by (rule pow2_pos)
  have "x / pow2 (e - 52) = of_int (n * 2 ^ j)"
    using u by (simp add: x_def pk)
  then have "round_half_even (x / pow2 (e - 52)) = n * 2 ^ j"
    by (simp only: round_half_even_int)
  moreover have "max e (- 1022) = e"
    using ek by simp
  ultimately have "fl x = of_int (n * 2 ^ j) * pow2 (e - 52)"
    using fl_nonzero [OF x0] by (simp add: e_def)
  also have "\<dots> = x"
    by (simp add: x_def pk)
  finally show ?thesis by (simp add: x_def)
qed

lemma ilog2_57:
  fixes T :: int
  assumes "2 ^ 57 \<le> T" and "T < 2 ^ 58"
  shows "ilog2 \<bar>of_int T\<bar> = 57"
proof -
  have "(of_int (2 ^ 57) :: rat) \<le> of_int T"
    using assms(1) by (simp only: of_int_le_iff)
  then have lo: "pow2 57 \<le> \<bar>of_int T\<bar>"
    by (simp add: pow2_def)
  have "(of_int T :: rat) < of_int (2 ^ 58)"
    using assms(2) by (simp only: of_int_less_iff)
  moreover have "(0 :: rat) \<le> of_int T" using assms(1) by simp
  ultimately have hi: "\<bar>of_int T :: rat\<bar> < pow2 58"
    by (simp add: pow2_def)
  have "57 \<le> ilog2 \<bar>of_int T\<bar>" using lo by (rule ilog2_ge)
  moreover have "ilog2 \<bar>of_int T\<bar> < 58"
    using hi lo pow2_pos [of 57] by (intro ilog2_less) simp_all
  ultimately show ?thesis by simp
qed

text \<open>
  In the binade from \<open>2^57\<close> the binary64 values are the multiples of 32.
\<close>

lemma fl_binade_57:
  fixes T :: int
  assumes "2 ^ 57 \<le> T" and "T < 2 ^ 58"
  shows "fl (of_int T) = of_int (round_half_even (of_int T / 32)) * 32"
proof -
  have "(of_int T :: rat) \<noteq> 0" using assms(1) by simp
  from fl_nonzero [OF this] show ?thesis
    by (simp add: ilog2_57 [OF assms] pow2_def)
qed

text \<open>
  A timestamp below \<open>2^58\<close> is not rounded below a multiple of 16 that it exceeds.
\<close>

lemma fl_timestamp_above:
  fixes T B :: int
  assumes T: "0 \<le> T" "T < 2 ^ 58" and B: "16 dvd B" "B < T"
  shows "of_int B \<le> fl (of_int T)"
proof (cases "B \<le> 0")
  case True
  have "fl 0 = 0" by (simp add: fl_def)
  moreover have "(0 :: rat) \<le> of_int T" using T(1) by simp
  ultimately have "0 \<le> fl (of_int T)" by (rule fl_above_representable)
  moreover have "(of_int B :: rat) \<le> 0" using True by simp
  ultimately show ?thesis by simp
next
  case False
  then have Bpos: "0 < B" by simp
  from B(1) obtain m where m: "B = 16 * m" by (auto simp add: dvd_def)
  have le: "(of_int B :: rat) \<le> of_int T"
    using B(2) by simp
  show ?thesis
  proof (cases "B < 2 ^ 57")
    case True
    then have "\<bar>m\<bar> < 2 ^ 53" using m Bpos by simp
    from fl_scaled_int_exact [OF this, of 4] have "fl (of_int B) = of_int B"
      by (simp add: m mult.commute)
    then show ?thesis using le by (rule fl_above_representable)
  next
    case big: False
    then have T57: "2 ^ 57 \<le> T" using B(2) by simp
    show ?thesis
    proof (cases "even m")
      case True
      then obtain n0 where n0: "m = 2 * n0" by (auto simp add: dvd_def)
      have "\<bar>n0\<bar> < 2 ^ 53" using m n0 Bpos B(2) T(2) by simp
      from fl_scaled_int_exact [OF this, of 5] have "fl (of_int B) = of_int B"
        by (simp add: m n0 mult.commute)
      then show ?thesis using le by (rule fl_above_representable)
    next
      case False
      then obtain n0 where n0: "m = 2 * n0 + 1" by (rule oddE)
      have Bn: "B = 32 * n0 + 16" by (simp add: m n0)
      have "32 * n0 + 16 < T" using B(2) Bn by simp
      then have "(of_int (32 * n0 + 16) :: rat) < of_int T"
        by (simp only: of_int_less_iff)
      then have "of_int n0 + 1 / 2 < (of_int T :: rat) / 32"
        by simp
      then have "n0 + 1 \<le> round_half_even (of_int T / 32)"
        by (rule round_half_even_above_half)
      then have "(of_int (n0 + 1) :: rat) \<le> of_int (round_half_even (of_int T / 32))"
        by (simp only: of_int_le_iff)
      then have "(of_int (n0 + 1) :: rat) * 32 \<le> of_int (round_half_even (of_int T / 32)) * 32"
        by (intro mult_right_mono) simp_all
      then have "(of_int (n0 + 1) :: rat) * 32 \<le> fl (of_int T)"
        by (simp only: fl_binade_57 [OF T57 T(2)])
      moreover have "(of_int B :: rat) \<le> of_int (n0 + 1) * 32"
        by (simp add: Bn)
      ultimately show ?thesis by simp
    qed
  qed
qed

text \<open>
  For a tick count below \<open>2^58\<close> that lies at least one tick after the millisecond \<open>ms\<close>,
  none of the three roundings of \<open>getDateFromUUID\<close> goes below that millisecond.
\<close>

lemma date_not_early:
  fixes T ms sub :: int
  assumes T: "0 \<le> T" "T < 2 ^ 58"
    and D: "T = 122192928000000000 + 10000 * ms + sub"
    and sub: "1 \<le> sub" "sub < 10000"
  shows "ms \<le> \<lfloor>fl (fl (fl (of_int T) - 122192928000000000) / 10000)\<rfloor>"
proof -
  define M where "M = 10000 * ms"
  define B where "B = 122192928000000000 + M"
  define r where "r = fl (of_int T)"
  define x1 where "x1 = r - 122192928000000000"
  define s where "s = fl x1"
  have "B = 16 * (7637058000000000 + 625 * ms)"
    by (simp add: B_def M_def)
  then have dB: "16 dvd B" by (rule dvdI)
  have BT: "B < T" using D sub(1) by (simp add: B_def M_def)
  have "of_int B \<le> r"
    unfolding r_def using T dB BT by (rule fl_timestamp_above)
  then have x1M: "of_int M \<le> x1"
    by (simp add: x1_def B_def)
  have Mlo: "- (2 ^ 57) < M" and Mhi: "M < 2 ^ 58"
    using D T sub by (simp_all add: M_def)
  have sM: "of_int M \<le> s"
  proof (cases "M < 2 ^ 57")
    case True
    with Mlo have "\<bar>625 * ms\<bar> < 2 ^ 53" by (simp add: M_def)
    from fl_scaled_int_exact [OF this, of 4] have "fl (of_int M) = of_int M"
      by (simp add: M_def mult.commute)
    then show ?thesis
      unfolding s_def using x1M by (rule fl_above_representable)
  next
    case False
    then have T57: "2 ^ 57 \<le> T" using D sub(1) by (simp add: M_def)
    define n where "n = round_half_even (of_int T / 32) - 3818529000000000"
    have x1n: "x1 = of_int n * 2 ^ 5"
      by (simp add: x1_def r_def fl_binade_57 [OF T57 T(2)] n_def algebra_simps)
    have "(of_int (2 ^ 57) :: rat) \<le> of_int M"
      using False by (simp only: of_int_le_iff not_less)
    with x1M have "(0 :: rat) < of_int n * 2 ^ 5"
      by (simp add: x1n)
    then have "(0 :: rat) < of_int n"
      by (simp add: zero_less_mult_iff)
    then have n0: "0 < n" by simp
    have "T < 2 ^ 60" using T(2) by simp
    from fl_timestamp [OF T(1) this] have "r \<le> of_int T + 64"
      by (simp add: r_def abs_le_iff)
    moreover have "(of_int T :: rat) < of_int (2 ^ 58)"
      using T(2) by (simp only: of_int_less_iff)
    ultimately have "x1 < 2 ^ 58" by (simp add: x1_def)
    then have "(of_int n :: rat) * 2 ^ 5 < of_int (2 ^ 53) * 2 ^ 5"
      by (simp add: x1n)
    then have "(of_int n :: rat) < of_int (2 ^ 53)"
      by (simp only: mult_less_cancel_right_pos zero_less_power zero_less_numeral)
    then have "n < 2 ^ 53" by (simp only: of_int_less_iff)
    with n0 have "\<bar>n\<bar> < 2 ^ 53" by simp
    from fl_scaled_int_exact [OF this, of 5] have "s = x1"
      by (simp add: s_def x1n)
    with x1M show ?thesis by simp
  qed
  have "(of_int (10000 * ms) :: rat) \<le> s" using sM by (simp add: M_def)
  then have q1: "(of_int ms :: rat) \<le> s / 10000" by simp
  have "\<bar>ms\<bar> < 2 ^ 53" using Mlo Mhi by (simp add: M_def)
  then have "fl (of_int ms) = of_int ms" by (rule fl_int_exact)
  then have "of_int ms \<le> fl (s / 10000)"
    using q1 by (rule fl_above_representable)
  then have "ms \<le> \<lfloor>fl (s / 10000)\<rfloor>" by (simp only: le_floor_iff)
  then show ?thesis by (simp add: s_def x1_def r_def)
qed

text \<open>
  Below \<open>2^58\<close> the date is less than a millisecond, or exactly one, before the
  timestamp.
\<close>

lemma date_rounding_1ms:
  fixes T ms sub :: int
  assumes T: "0 \<le> T" "T < 2 ^ 58"
    and D: "T = 122192928000000000 + 10000 * ms + sub"
    and sub: "0 \<le> sub" "sub < 10000"
  shows "10000 * ms + sub - 10000
           \<le> 10000 * \<lfloor>fl (fl (fl (of_int T) - 122192928000000000) / 10000)\<rfloor>"
proof (cases "sub = 0")
  case True
  have "T < 2 ^ 60" using T(2) by simp
  from date_rounding(3) [OF T(1) this D sub]
  have "ms - 1 \<le> \<lfloor>fl (fl (fl (of_int T) - 122192928000000000) / 10000)\<rfloor>"
    by simp
  with True show ?thesis by simp
next
  case False
  with sub(1) have "1 \<le> sub" by simp
  from date_not_early [OF T D this sub(2)] sub(2) show ?thesis by simp
qed

text \<open>
  The run of \<open>getDateFromUUID\<close> on five hexadecimal groups: no operation leaves the
  finite Numbers, and the millisecond count is within the range of a \<open>Date\<close>.
\<close>

lemma getDateFromUUID_run:
  assumes "length g0 = 8" and "list_all (is_digit_in 16) g0"
    and "length g1 = 4" and "list_all (is_digit_in 16) g1"
    and "length g2 = 4" and "list_all (is_digit_in 16) g2"
    and "list_all (is_digit_in 16) g3"
    and "list_all (is_digit_in 16) g4"
  shows "getDateFromUUID (g0 @ ''-'' @ g1 @ ''-'' @ g2 @ ''-'' @ g3 @ ''-'' @ g4) =
           Inr (Date (Fin (of_int
             \<lfloor>fl (fl (fl (of_int (digits_value 16 0 (drop 1 g2 @ g1 @ g0)))
                       - 122192928000000000) / 10000)\<rfloor>)))"
proof -
  define T where "T = digits_value 16 0 (drop 1 g2 @ g1 @ g0)"
  define ms where "ms = (T - 122192928000000000) div 10000"
  define sub where "sub = (T - 122192928000000000) mod 10000"
  define s where "s = fl (fl (of_int T) - 122192928000000000)"
  define q where "q = fl (s / 10000)"
  note run = getTimeIntFromUUID_run [OF assms]
  have T: "0 \<le> T" "T < 2 ^ 60" "T = 122192928000000000 + 10000 * ms + sub"
    using run(2,3) by (simp_all add: T_def ms_def sub_def)
  have sub: "0 \<le> sub" "sub < 10000"
    by (simp_all add: sub_def)
  note rnd = date_rounding [OF T sub]
  have diff: "to_number (fl (of_int T) - 122192928000000000) = Fin s"
    using to_number_finite [OF rnd(1)] by (simp add: s_def)
  have quot: "to_number (s / 10000) = Fin q"
    using to_number_finite [OF rnd(2)] by (simp add: q_def s_def)
  have clip: "TimeClip (Fin (of_int \<lfloor>q\<rfloor>)) = Fin (of_int \<lfloor>q\<rfloor>)"
    using rnd(4) by (simp add: q_def s_def not_less [symmetric])
  have "getDateFromUUID (g0 @ ''-'' @ g1 @ ''-'' @ g2 @ ''-'' @ g3 @ ''-'' @ g4) =
      Inr (Date (Fin (of_int \<lfloor>q\<rfloor>)))"
    unfolding getDateFromUUID_def run(1) T_def [symmetric]
    by (simp add: bind_res_def Let_def diff quot new_Date_def clip del: TimeClip.simps)
  then show ?thesis
    unfolding q_def s_def T_def .
qed

lemma fl_far_timestamp: "fl 669079684163550014 = 669079684163549952"
  by code_simp

lemma fl_far_difference: "fl (669079684163549952 - 122192928000000000) = 546886756163549952"
  by code_simp

lemma fl_far_quotient: "\<lfloor>fl (546886756163549952 / 10000)\<rfloor> = 54688675616354"
  by code_simp

text \<open>
  C3, as stated, fails. The timestamp field of
  \<open>84ffbb3e-0c6d-1949-8000-000000000000\<close> is the tick count of the date 14 ticks after
  millisecond 54688675616355 of the Unix epoch. The Number read from the field is 62
  ticks below it, which is before that millisecond began, and \<open>getDateFromUUID\<close>
  returns millisecond 54688675616354: 10014 ticks, more than 1 ms, before the date.
\<close>

theorem getDateFromUUID_counterexample:
  "getDateFromUUID ''84ffbb3e-0c6d-1949-8000-000000000000'' =
     Inr (Date (Fin 54688675616354))
   \<and> digits_value 16 0 (drop 1 ''1949'' @ ''0c6d'' @ ''84ffbb3e'') =
       122192928000000000 + 10000 * 54688675616355 + 14
   \<and> (10000 * 54688675616355 + 14) - 10000 * 54688675616354 = (10014 :: int)"
proof -
  have h: "length ''84ffbb3e'' = 8" "list_all (is_digit_in 16) ''84ffbb3e''"
    "length ''0c6d'' = 4" "list_all (is_digit_in 16) ''0c6d''"
    "length ''1949'' = 4" "list_all (is_digit_in 16) ''1949''"
    "list_all (is_digit_in 16) ''8000''"
    "list_all (is_digit_in 16) ''000000000000''"
    by (simp_all add: is_digit_in_def digit_of_def)
  have t: "digits_value 16 0 (drop 1 ''1949'' @ ''0c6d'' @ ''84ffbb3e'') = 669079684163550014"
    by (simp add: digit_of_def)
  have "getDateFromUUID
          (''84ffbb3e'' @ ''-'' @ ''0c6d'' @ ''-'' @ ''1949'' @ ''-'' @ ''8000'' @ ''-'' @
           ''000000000000'') =
        Inr (Date (Fin (of_int
          \<lfloor>fl (fl (fl (of_int (digits_value 16 0 (drop 1 ''1949'' @ ''0c6d'' @ ''84ffbb3e'')))
                    - 122192928000000000) / 10000)\<rfloor>)))"
    by (rule getDateFromUUID_run [OF h])
  then have "getDateFromUUID
          (''84ffbb3e'' @ ''-'' @ ''0c6d'' @ ''-'' @ ''1949'' @ ''-'' @ ''8000'' @ ''-'' @
           ''000000000000'') = Inr (Date (Fin 54688675616354))"
    unfolding t
    by (simp only: of_int_numeral fl_far_timestamp fl_far_difference fl_far_quotient)
  then have run: "getDateFromUUID ''84ffbb3e-0c6d-1949-8000-000000000000'' =
      Inr (Date (Fin 54688675616354))"
    by (simp only: append.simps)
  from run t show ?thesis by simp
qed

text \<open>
  C3, amended. For every canonical version-1 UUID string whose timestamp field holds
  the tick count of a known date (\<open>ms\<close> milliseconds since 1970-01-01, plus \<open>sub\<close>
  further 100 ns ticks, fewer than a millisecond, plus the offset 122192928000000000
  of the UUID epoch), \<open>getDateFromUUID\<close> returns a date within 1 ms of that date when
  the tick count is below \<open>2^58\<close> (which covers every date before the year 2496), and
  for every tick count a date less than 1.04 ms from it: at most 393 ticks after it,
  less than 10393 ticks before it, and within 1 ms of the millisecond \<open>ms\<close> in which it
  lies. The time value returned is the floor of the rounded quotient by 10000 of the
  rounded difference of the extracted timestamp, itself rounded, and
  122192928000000000.
\<close>

theorem getDateFromUUID_millisecond:
  assumes "length g0 = 8" and "list_all (is_digit_in 16) g0"
    and "length g1 = 4" and "list_all (is_digit_in 16) g1"
    and "length g2 = 4" and "list_all (is_digit_in 16) g2"
    and "list_all (is_digit_in 16) g3"
    and "list_all (is_digit_in 16) g4"
    and "digits_value 16 0 (drop 1 g2 @ g1 @ g0) = 122192928000000000 + 10000 * ms + sub"
    and "0 \<le> sub" and "sub < 10000"
  shows "getDateFromUUID (g0 @ ''-'' @ g1 @ ''-'' @ g2 @ ''-'' @ g3 @ ''-'' @ g4) =
           Inr (Date (Fin (of_int
             \<lfloor>fl (fl (fl (of_int (digits_value 16 0 (drop 1 g2 @ g1 @ g0)))
                       - 122192928000000000) / 10000)\<rfloor>)))
       \<and> \<bar>\<lfloor>fl (fl (fl (of_int (digits_value 16 0 (drop 1 g2 @ g1 @ g0)))
                    - 122192928000000000) / 10000)\<rfloor> - ms\<bar> \<le> 1
       \<and> 10000 * \<lfloor>fl (fl (fl (of_int (digits_value 16 0 (drop 1 g2 @ g1 @ g0)))
                    - 122192928000000000) / 10000)\<rfloor> \<le> 10000 * ms + sub + 393
       \<and> 10000 * ms + sub - 10393 <
           10000 * \<lfloor>fl (fl (fl (of_int (digits_value 16 0 (drop 1 g2 @ g1 @ g0)))
                    - 122192928000000000) / 10000)\<rfloor>
       \<and> (digits_value 16 0 (drop 1 g2 @ g1 @ g0) < 2 ^ 58 \<longrightarrow>
            10000 * ms + sub - 10000 \<le>
            10000 * \<lfloor>fl (fl (fl (of_int (digits_value 16 0 (drop 1 g2 @ g1 @ g0)))
                    - 122192928000000000) / 10000)\<rfloor>)"
proof -
  define T where "T = digits_value 16 0 (drop 1 g2 @ g1 @ g0)"
  note run = getTimeIntFromUUID_run [OF assms(1-8)]
  have T: "0 \<le> T" "T < 2 ^ 60" "T = 122192928000000000 + 10000 * ms + sub"
    using run(2,3) assms(9) by (simp_all add: T_def)
  note rnd = date_rounding [OF T assms(10,11)]
  have near: "T < 2 ^ 58 \<longrightarrow>
      10000 * ms + sub - 10000 \<le>
      10000 * \<lfloor>fl (fl (fl (of_int T) - 122192928000000000) / 10000)\<rfloor>"
    using date_rounding_1ms [OF T(1) _ T(3) assms(10,11)] by blast
  from getDateFromUUID_run [OF assms(1-8)] rnd(3,5,6) near show ?thesis
    unfolding T_def by (intro conjI)
qed

theorem getDateFromUUID_millisecond_witness:
  "length ''6ba7b810'' = 8 \<and> list_all (is_digit_in 16) ''6ba7b810''
   \<and> length ''9dad'' = 4 \<and> list_all (is_digit_in 16) ''9dad''
   \<and> length ''11d1'' = 4 \<and> list_all (is_digit_in 16) ''11d1''
   \<and> list_all (is_digit_in 16) ''80b4''
   \<and> list_all (is_digit_in 16) ''00c04fd430c8''
   \<and> digits_value 16 0 (drop 1 ''11d1'' @ ''9dad'' @ ''6ba7b810'') =
       122192928000000000 + 10000 * 886630433151 + 1824
   \<and> (0 :: int) \<le> 1824 \<and> (1824 :: int) < 10000
   \<and> digits_value 16 0 (drop 1 ''11d1'' @ ''9dad'' @ ''6ba7b810'') < 2 ^ 58
   \<and> getDateFromUUID ''6ba7b810-9dad-11d1-80b4-00c04fd430c8'' =
       Inr (Date (Fin (of_int
         \<lfloor>fl (fl (fl (of_int (digits_value 16 0 ''1d19dad6ba7b810''))
                   - 122192928000000000) / 10000)\<rfloor>)))
   \<and> \<bar>\<lfloor>fl (fl (fl (of_int (digits_value 16 0 ''1d19dad6ba7b810''))
                - 122192928000000000) / 10000)\<rfloor> - 886630433151\<bar> \<le> 1
   \<and> 10000 * \<lfloor>fl (fl (fl (of_int (digits_value 16 0 ''1d19dad6ba7b810''))
                - 122192928000000000) / 10000)\<rfloor> \<le> 10000 * 886630433151 + 1824 + 393
   \<and> 10000 * 886630433151 + 1824 - 10393 <
       10000 * \<lfloor>fl (fl (fl (of_int (digits_value 16 0 ''1d19dad6ba7b810''))
                - 122192928000000000) / 10000)\<rfloor>
   \<and> 10000 * 886630433151 + 1824 - 10000 \<le>
       10000 * \<lfloor>fl (fl (fl (of_int (digits_value 16 0 ''1d19dad6ba7b810''))
                - 122192928000000000) / 10000)\<rfloor>"
proof -
  have h: "length ''6ba7b810'' = 8" "list_all (is_digit_in 16) ''6ba7b810''"
    "length ''9dad'' = 4" "list_all (is_digit_in 16) ''9dad''"
    "length ''11d1'' = 4" "list_all (is_digit_in 16) ''11d1''"
    "list_all (is_digit_in 16) ''80b4''"
    "list_all (is_digit_in 16) ''00c04fd430c8''"
    by (simp_all add: is_digit_in_def digit_of_def)
  have t: "digits_value 16 0 (drop 1 ''11d1'' @ ''9dad'' @ ''6ba7b810'') =
      122192928000000000 + 10000 * 886630433151 + 1824"
    by (simp add: digit_of_def)
  have s: "(0 :: int) \<le> 1824" "(1824 :: int) < 10000"
    by simp_all
  have b: "digits_value 16 0 (drop 1 ''11d1'' @ ''9dad'' @ ''6ba7b810'') < 2 ^ 58"
    by (simp add: digit_of_def)
  note inst = getDateFromUUID_millisecond [OF h t s]
  have "getDateFromUUID
          (''6ba7b810'' @ ''-'' @ ''9dad'' @ ''-'' @ ''11d1'' @ ''-'' @ ''80b4'' @ ''-'' @
           ''00c04fd430c8'') =
        Inr (Date (Fin (of_int
          \<lfloor>fl (fl (fl (of_int (digits_value 16 0 (drop 1 ''11d1'' @ ''9dad'' @ ''6ba7b810'')))
                    - 122192928000000000) / 10000)\<rfloor>)))
      \<and> \<bar>\<lfloor>fl (fl (fl (of_int (digits_value 16 0 (drop 1 ''11d1'' @ ''9dad'' @ ''6ba7b810'')))
                   - 122192928000000000) / 10000)\<rfloor> - 886630433151\<bar> \<le> 1
      \<and> 10000 * \<lfloor>fl (fl (fl (of_int (digits_value 16 0 (drop 1 ''11d1'' @ ''9dad'' @ ''6ba7b810'')))
                   - 122192928000000000) / 10000)\<rfloor> \<le> 10000 * 886630433151 + 1824 + 393
      \<and> 10000 * 886630433151 + 1824 - 10393 <
          10000 * \<lfloor>fl (fl (fl (of_int (digits_value 16 0 (drop 1 ''11d1'' @ ''9dad'' @ ''6ba7b810'')))
                   - 122192928000000000) / 10000)\<rfloor>
      \<and> 10000 * 886630433151 + 1824 - 10000 \<le>
          10000 * \<lfloor>fl (fl (fl (of_int (digits_value 16 0 (drop 1 ''11d1'' @ ''9dad'' @ ''6ba7b810'')))
                   - 122192928000000000) / 10000)\<rfloor>"
    using inst b by blast
  then have "getDateFromUUID ''6ba7b810-9dad-11d1-80b4-00c04fd430c8'' =
        Inr (Date (Fin (of_int
          \<lfloor>fl (fl (fl (of_int (digits_value 16 0 ''1d19dad6ba7b810''))
                    - 122192928000000000) / 10000)\<rfloor>)))
      \<and> \<bar>\<lfloor>fl (fl (fl (of_int (digits_value 16 0 ''1d19dad6ba7b810''))
                   - 122192928000000000) / 10000)\<rfloor> - 886630433151\<bar> \<le> 1
      \<and> 10000 * \<lfloor>fl (fl (fl (of_int (digits_value 16 0 ''1d19dad6ba7b810''))
                   - 122192928000000000) / 10000)\<rfloor> \<le> 10000 * 886630433151 + 1824 + 393
      \<and> 10000 * 886630433151 + 1824 - 10393 <
          10000 * \<lfloor>fl (fl (fl (of_int (digits_value 16 0 ''1d19dad6ba7b810''))
                   - 122192928000000000) / 10000)\<rfloor>
      \<and> 10000 * 886630433151 + 1824 - 10000 \<le>
          10000 * \<lfloor>fl (fl (fl (of_int (digits_value 16 0 ''1d19dad6ba7b810''))
                   - 122192928000000000) / 10000)\<rfloor>"
    by (simp only: append.simps drop_Suc_Cons drop_0 One_nat_def)
  with h t s b show ?thesis by (intro conjI) simp_all
qed

end
